theory Spec2Isabelle
  imports Main "HOL-Library.Sublist" "HOL-Library.AList"
begin

section \<open>Enumerations (reactlm/core/types.py)\<close>

datatype InputType =
  InputType_TEXT | InputType_IMAGE | InputType_AUDIO | InputType_VIDEO | InputType_BINARY

datatype OutputType =
  OutputType_TEXT | OutputType_IMAGE | OutputType_AUDIO | OutputType_VIDEO
  | OutputType_BINARY | OutputType_JSON

datatype ExecutionMode = STANDARD | YOLO

datatype AgentState = IDLE | THINKING | EXECUTING | WAITING | ERROR | COMPLETED

text \<open>The \<^verbatim>\<open>.value\<close> of an \<^verbatim>\<open>AgentState\<close> member.\<close>

fun AgentState_value :: "AgentState \<Rightarrow> string" where
  "AgentState_value IDLE = ''idle''"
| "AgentState_value THINKING = ''thinking''"
| "AgentState_value EXECUTING = ''executing''"
| "AgentState_value WAITING = ''waiting''"
| "AgentState_value ERROR = ''error''"
| "AgentState_value COMPLETED = ''completed''"

section \<open>Python values and exceptions\<close>

text \<open>
  The payloads typed \<^verbatim>\<open>Any\<close> in the source are the values a JSON document decodes
  to. A float is carried by its printed form: the agent forwards floats and never computes
  with them. A dict is an association list in insertion order with string keys.
\<close>

datatype pyval =
  PNone
  | PBool bool
  | PInt int
  | PFloat string
  | PStr string
  | PList "pyval list"
  | PDict "(string \<times> pyval) list"

type_synonym pydict = "(string \<times> pyval) list"

datatype exn =
  ValueError string
  | RuntimeError string
  | TypeError string
  | KeyError string
  | AttributeError string
  | UnboundLocalError string
  | TimeoutError string

text \<open>A string between single quotes, as Python's messages print type names and keys.\<close>

definition quoted :: "string \<Rightarrow> string" where
  "quoted s = [CHR 0x27] @ s @ [CHR 0x27]"

fun py_type_name :: "pyval \<Rightarrow> string" where
  "py_type_name PNone = ''NoneType''"
| "py_type_name (PBool _) = ''bool''"
| "py_type_name (PInt _) = ''int''"
| "py_type_name (PFloat _) = ''float''"
| "py_type_name (PStr _) = ''str''"
| "py_type_name (PList _) = ''list''"
| "py_type_name (PDict _) = ''dict''"

text \<open>
  \<^verbatim>\<open>key in v\<close> for a string \<^verbatim>\<open>key\<close>: key membership in a dict, the substring test
  in a str, element equality in a list, and a TypeError for a value that is no container.
\<close>

fun py_contains :: "string \<Rightarrow> pyval \<Rightarrow> exn + bool" where
  "py_contains key (PDict d) = Inr (map_of d key \<noteq> None)"
| "py_contains key (PStr s) = Inr (sublist key s)"
| "py_contains key (PList xs) = Inr (List.member xs (PStr key))"
| "py_contains key v =
     Inl (TypeError (''argument of type '' @ quoted (py_type_name v) @ '' is not iterable''))"

text \<open>\<^verbatim>\<open>v[key]\<close> for a string \<^verbatim>\<open>key\<close>.\<close>

fun py_getitem :: "pyval \<Rightarrow> string \<Rightarrow> exn + pyval" where
  "py_getitem (PDict d) key =
     (case map_of d key of None \<Rightarrow> Inl (KeyError key) | Some x \<Rightarrow> Inr x)"
| "py_getitem (PStr s) key =
     Inl (TypeError (''string indices must be integers, not '' @ quoted ''str''))"
| "py_getitem (PList xs) key =
     Inl (TypeError ''list indices must be integers or slices, not str'')"
| "py_getitem v key =
     Inl (TypeError (quoted (py_type_name v) @ '' object is not subscriptable''))"

text \<open>\<^verbatim>\<open>v.get(key, default)\<close>: only a dict has the method.\<close>

fun py_get :: "pyval \<Rightarrow> string \<Rightarrow> pyval \<Rightarrow> exn + pyval" where
  "py_get (PDict d) key dflt = Inr (case map_of d key of None \<Rightarrow> dflt | Some x \<Rightarrow> x)"
| "py_get v key dflt =
     Inl (AttributeError (quoted (py_type_name v) @ '' object has no attribute ''
                           @ quoted ''get''))"

text \<open>\<^verbatim>\<open>str(n)\<close> of an integer, in decimal.\<close>

fun str_nat :: "nat \<Rightarrow> string" where
  "str_nat n =
     (if n < 10 then [''0123456789'' ! n]
      else str_nat (n div 10) @ [''0123456789'' ! (n mod 10)])"

declare str_nat.simps [simp del]

definition str_int :: "int \<Rightarrow> string" where
  "str_int i = (if i < 0 then ''-'' @ str_nat (nat (- i)) else str_nat (nat i))"

section \<open>Envelopes, traces and collaborators (reactlm/core/base.py)\<close>

record BaseInput =
  in_type :: InputType
  in_content :: pyval
  in_metadata :: pydict

record BaseOutput =
  out_type :: OutputType
  out_content :: pyval
  out_metadata :: pydict

text \<open>
  \<^verbatim>\<open>BaseTrace\<close>. Its wall-clock \<^verbatim>\<open>timestamp\<close> is left out: nothing in the agent
  reads it.
\<close>

record BaseTrace =
  session_id :: string
  action :: string
  trace_input :: BaseInput
  trace_output :: BaseOutput
  trace_metadata :: pydict

text \<open>
  What \<^verbatim>\<open>_construct_prompt\<close> puts into the prompt text: the rendered tool catalog, the
  context dict and the content of the user's input.
\<close>

record Prompt =
  prompt_tools :: string
  prompt_context :: pydict
  prompt_query :: pyval

text \<open>
  The collaborators are external and may answer differently at each call, so each method
  takes the number of calls of its kind made before it. A method that raises returns the
  exception. \<^verbatim>\<open>generate\<close> receives the prompt and the keyword arguments
  \<^verbatim>\<open>max_tokens\<close> and \<^verbatim>\<open>stop_sequences\<close> (the float \<^verbatim>\<open>temperature\<close> is left out).
\<close>

record BaseLLM =
  generate :: "nat \<Rightarrow> Prompt \<Rightarrow> int option \<Rightarrow> string list \<Rightarrow> exn + BaseOutput"

record BaseTool =
  name :: string
  description :: string
  input_types :: "InputType list"
  output_type :: OutputType
  version :: string
  tool_metadata :: pydict
  tool_execute :: "nat \<Rightarrow> BaseInput \<Rightarrow> exn + BaseOutput"
  validate_input :: "nat \<Rightarrow> BaseInput \<Rightarrow> exn + bool"

record BaseMemory =
  store :: "nat \<Rightarrow> string \<Rightarrow> BaseTrace \<Rightarrow> exn option"

text \<open>
  \<^verbatim>\<open>RedisMemory.store\<close> (reactlm/memory/redis_memory.py): the key is prefixed, the
  value is serialised and the client's \<^verbatim>\<open>set\<close> is awaited, all inside a \<^verbatim>\<open>try\<close>;
  any exception \<^verbatim>\<open>e\<close> raised there is re-raised as a RuntimeError whose message ends
  with \<^verbatim>\<open>str(e)\<close>. The client is given as what that block does at each call: \<open>None\<close>
  when it succeeds, the text \<^verbatim>\<open>str(e)\<close> of the exception when it raises.
\<close>

definition RedisMemory :: "(nat \<Rightarrow> string \<Rightarrow> string option) \<Rightarrow> string \<Rightarrow> BaseMemory" where
  "RedisMemory client_set key_prefix =
     \<lparr> store = (\<lambda>k key data.
         case client_set k (key_prefix @ key) of
           None \<Rightarrow> None
         | Some msg \<Rightarrow> Some (RuntimeError (''Redis storage error: '' @ msg))) \<rparr>"

section \<open>The agent (reactlm/core/agent.py)\<close>

record AgentConfig =
  max_iterations :: int
  mode :: ExecutionMode
  allowed_tools :: "string list"
  memory_type :: string
  trace_enabled :: bool
  max_tokens :: "int option"
  stop_sequences :: "string list"
  config_metadata :: pydict

text \<open>
  The fields of an \<^verbatim>\<open>Agent\<close>; \<open>priv_session_id\<close>, \<open>priv_iteration\<close> and
  \<open>priv_traces\<close> are \<^verbatim>\<open>_session_id\<close>, \<^verbatim>\<open>_iteration\<close> and \<^verbatim>\<open>_traces\<close>.
\<close>

record Agent =
  llm :: BaseLLM
  config :: AgentConfig
  tools :: "(string \<times> BaseTool) list"
  memory :: "BaseMemory option"
  state :: AgentState
  priv_session_id :: string
  priv_iteration :: int
  priv_traces :: "BaseTrace list"

text \<open>
  The world outside the agent: the log of every call made to a collaborator, with what
  was passed and what came back.
\<close>

record World =
  llm_calls :: "(Prompt \<times> (exn + BaseOutput)) list"
  tool_calls :: "(string \<times> BaseInput \<times> (exn + BaseOutput)) list"
  store_calls :: "(string \<times> BaseTrace \<times> exn option) list"

text \<open>\<^verbatim>\<open>Agent.__init__\<close>; \<open>uuid\<close> is the token \<^verbatim>\<open>str(uuid.uuid4())\<close> yields.\<close>

definition Agent_init ::
  "BaseLLM \<Rightarrow> AgentConfig \<Rightarrow> (string \<times> BaseTool) list option \<Rightarrow> BaseMemory option \<Rightarrow> string
    \<Rightarrow> Agent" where
  "Agent_init l c ts m uuid =
     \<lparr> llm = l, config = c, tools = (case ts of None \<Rightarrow> [] | Some t \<Rightarrow> t), memory = m,
       state = IDLE, priv_session_id = uuid, priv_iteration = 0, priv_traces = [] \<rparr>"

text \<open>\<^verbatim>\<open>Agent.add_tool\<close> and \<^verbatim>\<open>Agent.remove_tool\<close>.\<close>

definition add_tool :: "Agent \<Rightarrow> BaseTool \<Rightarrow> (exn + unit) \<times> Agent" where
  "add_tool ag tool =
     (if map_of (tools ag) (name tool) \<noteq> None
      then (Inl (ValueError (''Tool '' @ name tool @ '' already exists'')), ag)
      else (Inr (), ag\<lparr>tools := AList.update (name tool) tool (tools ag)\<rparr>))"

definition remove_tool :: "Agent \<Rightarrow> string \<Rightarrow> (exn + unit) \<times> Agent" where
  "remove_tool ag tool_name =
     (if map_of (tools ag) tool_name \<noteq> None
      then (Inr (), ag\<lparr>tools := AList.delete tool_name (tools ag)\<rparr>)
      else (Inr (), ag))"

subsection \<open>Prompt, model call and trace recording\<close>

text \<open>\<^verbatim>\<open>"\n".join(lines)\<close>.\<close>

fun join_lines :: "string list \<Rightarrow> string" where
  "join_lines [] = []"
| "join_lines [x] = x"
| "join_lines (x # y # ys) = x @ [CHR 0x0A] @ join_lines (y # ys)"

text \<open>
  \<^verbatim>\<open>Agent._construct_prompt\<close>: one line \<^verbatim>\<open>- name: description\<close> per registry entry
  in insertion order, the context and the query. The fixed text around them is left out.
\<close>

definition construct_prompt :: "Agent \<Rightarrow> BaseInput \<Rightarrow> pydict \<Rightarrow> Prompt" where
  "construct_prompt ag input_data ctx =
     \<lparr> prompt_tools =
         join_lines (map (\<lambda>(nm, tool). ''- '' @ nm @ '': '' @ description tool) (tools ag)),
       prompt_context = ctx,
       prompt_query = in_content input_data \<rparr>"

text \<open>\<^verbatim>\<open>Agent._generate_next_action\<close>: one call to the model, logged in the world.\<close>

definition generate_next_action ::
  "Agent \<Rightarrow> World \<Rightarrow> BaseInput \<Rightarrow> pydict \<Rightarrow> (exn + BaseOutput) \<times> World" where
  "generate_next_action ag w input_data ctx =
     (let prompt = construct_prompt ag input_data ctx;
          response = generate (llm ag) (length (llm_calls w)) prompt
                       (max_tokens (config ag)) (stop_sequences (config ag))
      in (response, w\<lparr>llm_calls := llm_calls w @ [(prompt, response)]\<rparr>))"

text \<open>The trace \<^verbatim>\<open>_store_trace\<close> builds (lines 225 to 235).\<close>

definition make_trace :: "Agent \<Rightarrow> string \<Rightarrow> BaseInput \<Rightarrow> BaseOutput \<Rightarrow> BaseTrace" where
  "make_trace ag act input_data output =
     \<lparr> session_id = priv_session_id ag, action = act,
       trace_input = input_data, trace_output = output,
       trace_metadata = [(''iteration'', PInt (priv_iteration ag)),
                         (''state'', PStr (AgentState_value (state ag)))] \<rparr>"

text \<open>
  \<^verbatim>\<open>Agent._store_trace\<close>: the trace is appended to \<^verbatim>\<open>_traces\<close> first; then, when a
  memory is attached, \<^verbatim>\<open>memory.store\<close> is awaited with no handler around it, so what it
  raises leaves \<^verbatim>\<open>_store_trace\<close>. The first component is the exception raised, if any.
\<close>

definition store_trace ::
  "Agent \<Rightarrow> World \<Rightarrow> string \<Rightarrow> BaseInput \<Rightarrow> BaseOutput \<Rightarrow> exn option \<times> Agent \<times> World" where
  "store_trace ag w act input_data output =
     (let trace = make_trace ag act input_data output;
          ag' = ag\<lparr>priv_traces := priv_traces ag @ [trace]\<rparr>
      in case memory ag of
           None \<Rightarrow> (None, ag', w)
         | Some m \<Rightarrow>
             (let key = ''trace:'' @ priv_session_id ag @ '':'' @ str_int (priv_iteration ag);
                  r = store m (length (store_calls w)) key trace
              in (r, ag', w\<lparr>store_calls := store_calls w @ [(key, trace, r)]\<rparr>)))"

text \<open>
  The two blocks \<^verbatim>\<open>if self.config.trace_enabled: await self._store_trace(...)\<close>
  (lines 85 to 90 and 121 to 126).
\<close>

definition trace_if_enabled ::
  "Agent \<Rightarrow> World \<Rightarrow> string \<Rightarrow> BaseInput \<Rightarrow> BaseOutput \<Rightarrow> exn option \<times> Agent \<times> World" where
  "trace_if_enabled ag w act input_data output =
     (if trace_enabled (config ag) then store_trace ag w act input_data output
      else (None, ag, w))"

subsection \<open>One pass of the loop\<close>

text \<open>
  \<^verbatim>\<open>tool_name in self.tools\<close>, \<^verbatim>\<open>self.tools[tool_name]\<close> and the \<^verbatim>\<open>str(tool_name)\<close>
  of the two f-strings, for whatever value the model put under \<^verbatim>\<open>"tool"\<close>: a list or a
  dict cannot be hashed; any other value that is not a registered name is not found.
\<close>

datatype lookup = Unhashable string | NotFound string | Found string BaseTool

fun tools_lookup :: "pyval \<Rightarrow> (string \<times> BaseTool) list \<Rightarrow> lookup" where
  "tools_lookup (PStr s) ts = (case map_of ts s of None \<Rightarrow> NotFound s | Some t \<Rightarrow> Found s t)"
| "tools_lookup PNone ts = NotFound ''None''"
| "tools_lookup (PBool b) ts = NotFound (if b then ''True'' else ''False'')"
| "tools_lookup (PInt i) ts = NotFound (str_int i)"
| "tools_lookup (PFloat r) ts = NotFound r"
| "tools_lookup (PList xs) ts = Unhashable ''list''"
| "tools_lookup (PDict d) ts = Unhashable ''dict''"

text \<open>
  How a piece of the loop body ends: by raising, by \<^verbatim>\<open>break\<close>, by \<^verbatim>\<open>return\<close>, or by
  running to its end.
\<close>

datatype flow = Raise exn | Break | Return BaseOutput | Continue

text \<open>
  The local variables of \<^verbatim>\<open>execute\<close>; \<open>context_var\<close> is \<^verbatim>\<open>context\<close>, \<open>action_var\<close> is \<^verbatim>\<open>action\<close>, and \<open>None\<close>
  there means that the name is still unbound (a bound \<^verbatim>\<open>action\<close> is the envelope the
  model returned).
\<close>

record Locals =
  context_var :: pydict
  final_answer :: "BaseOutput option"
  action_var :: "BaseOutput option"

text \<open>The branch \<^verbatim>\<open>elif "tool" in response_data\<close> (agent.py, lines 106 to 131).\<close>

definition tool_step ::
  "Agent \<Rightarrow> World \<Rightarrow> BaseInput \<Rightarrow> Locals \<Rightarrow> pyval \<Rightarrow> flow \<times> Agent \<times> World \<times> Locals" where
  "tool_step ag w input_data L response_data =
     (let ag1 = ag\<lparr>state := EXECUTING\<rparr> in
      case py_getitem response_data ''tool'' of
        Inl e \<Rightarrow> (Raise e, ag1, w, L)
      | Inr tool_name \<Rightarrow>
          (case py_get response_data ''input'' (PStr []) of
             Inl e \<Rightarrow> (Raise e, ag1, w, L)
           | Inr tool_input \<Rightarrow>
               (case tools_lookup tool_name (tools ag1) of
                  Unhashable ty \<Rightarrow>
                    (Raise (TypeError (''unhashable type: '' @ quoted ty)), ag1, w, L)
                | NotFound s \<Rightarrow>
                    (Raise (ValueError (''Tool '' @ s @ '' not found'')), ag1, w, L)
                | Found s tool \<Rightarrow>
                    (let arg = \<lparr> in_type = InputType_TEXT, in_content = tool_input,
                                  in_metadata = [] \<rparr>;
                         r = tool_execute tool (length (tool_calls w)) arg;
                         w1 = w\<lparr>tool_calls := tool_calls w @ [(s, arg, r)]\<rparr>
                     in case r of
                          Inl e \<Rightarrow> (Raise e, ag1, w1, L)
                        | Inr tool_result \<Rightarrow>
                            (case trace_if_enabled ag1 w1 (''tool_execution:'' @ s)
                                    input_data tool_result of
                               (Some e, ag2, w2) \<Rightarrow> (Raise e, ag2, w2, L)
                             | (None, ag2, w2) \<Rightarrow>
                                 (Continue, ag2, w2,
                                  L\<lparr>context_var := AList.update ''last_tool_result''
                                                  (out_content tool_result) (context_var L)\<rparr>))))))"

text \<open>Parsing the model's response (agent.py, lines 93 to 131).\<close>

definition parse_step ::
  "Agent \<Rightarrow> World \<Rightarrow> BaseInput \<Rightarrow> Locals \<Rightarrow> BaseOutput \<Rightarrow> flow \<times> Agent \<times> World \<times> Locals" where
  "parse_step ag w input_data L act =
     (if out_type act = OutputType_JSON then
        (let response_data = out_content act in
         case py_contains ''final_answer'' response_data of
           Inl e \<Rightarrow> (Raise e, ag, w, L)
         | Inr True \<Rightarrow>
             (case py_getitem response_data ''final_answer'' of
                Inl e \<Rightarrow> (Raise e, ag, w, L)
              | Inr v \<Rightarrow>
                  (Break, ag, w,
                   L\<lparr>final_answer := Some \<lparr> out_type = OutputType_JSON, out_content = v,
                                            out_metadata = out_metadata act \<rparr>\<rparr>))
         | Inr False \<Rightarrow>
             (case py_contains ''tool'' response_data of
                Inl e \<Rightarrow> (Raise e, ag, w, L)
              | Inr True \<Rightarrow> tool_step ag w input_data L response_data
              | Inr False \<Rightarrow> (Continue, ag, w, L)))
      else (Continue, ag, w, L))"

text \<open>The body of the \<^verbatim>\<open>while\<close> loop (agent.py, lines 78 to 136).\<close>

definition loop_body ::
  "Agent \<Rightarrow> World \<Rightarrow> BaseInput \<Rightarrow> Locals \<Rightarrow> flow \<times> Agent \<times> World \<times> Locals" where
  "loop_body ag w input_data L =
     (let ag1 = ag\<lparr>priv_iteration := priv_iteration ag + 1, state := THINKING\<rparr> in
      case generate_next_action ag1 w input_data (context_var L) of
        (Inl e, w1) \<Rightarrow> (Raise e, ag1, w1, L)
      | (Inr act, w1) \<Rightarrow>
          (let L1 = L\<lparr>action_var := Some act\<rparr> in
           case trace_if_enabled ag1 w1 ''llm_generation'' input_data act of
             (Some e, ag2, w2) \<Rightarrow> (Raise e, ag2, w2, L1)
           | (None, ag2, w2) \<Rightarrow>
               (case parse_step ag2 w2 input_data L1 act of
                  (Continue, ag3, w3, L3) \<Rightarrow>
                    (case final_answer L3 of
                       Some fa \<Rightarrow> (Return fa, ag3\<lparr>state := COMPLETED\<rparr>, w3, L3)
                     | None \<Rightarrow> (Continue, ag3, w3, L3))
                | other \<Rightarrow> other)))"

subsection \<open>What a pass leaves untouched\<close>

definition same_setup :: "Agent \<Rightarrow> Agent \<Rightarrow> bool" where
  "same_setup ag ag' \<longleftrightarrow>
     llm ag' = llm ag \<and> config ag' = config ag \<and> tools ag' = tools ag \<and>
     memory ag' = memory ag \<and> priv_session_id ag' = priv_session_id ag"

lemma same_setup_refl [simp]: "same_setup ag ag"
  by (simp add: same_setup_def)

lemma same_setup_upd [simp]:
  "same_setup ag (ag'\<lparr>state := s\<rparr>) = same_setup ag ag'"
  "same_setup ag (ag'\<lparr>priv_iteration := n\<rparr>) = same_setup ag ag'"
  "same_setup ag (ag'\<lparr>priv_traces := ts\<rparr>) = same_setup ag ag'"
  "same_setup (ag\<lparr>state := s\<rparr>) ag' = same_setup ag ag'"
  "same_setup (ag\<lparr>priv_iteration := n\<rparr>) ag' = same_setup ag ag'"
  "same_setup (ag\<lparr>priv_traces := ts\<rparr>) ag' = same_setup ag ag'"
  by (simp_all add: same_setup_def)

lemma same_setup_trans: "same_setup a b \<Longrightarrow> same_setup b c \<Longrightarrow> same_setup a c"
  by (simp add: same_setup_def)

lemma store_trace_frame:
  "trace_if_enabled ag w a i out = (r, ag', w') \<Longrightarrow>
     same_setup ag ag' \<and> priv_iteration ag' = priv_iteration ag \<and> state ag' = state ag"
  by (auto simp: trace_if_enabled_def store_trace_def Let_def split: option.splits if_splits)

lemma tool_step_frame:
  "tool_step ag w i L rd = (fl, ag', w', L') \<Longrightarrow>
     same_setup ag ag' \<and> priv_iteration ag' = priv_iteration ag"
  unfolding tool_step_def Let_def
  by (auto split: sum.splits lookup.splits if_splits option.splits prod.splits
           dest!: store_trace_frame)

lemma parse_step_frame:
  "parse_step ag w i L act = (fl, ag', w', L') \<Longrightarrow>
     same_setup ag ag' \<and> priv_iteration ag' = priv_iteration ag"
  unfolding parse_step_def Let_def
  by (auto split: sum.splits if_splits bool.splits dest!: tool_step_frame)

lemma loop_body_frame:
  "loop_body ag w i L = (fl, ag', w', L') \<Longrightarrow>
     same_setup ag ag' \<and> priv_iteration ag' = priv_iteration ag + 1"
  unfolding loop_body_def Let_def generate_next_action_def
  by (auto split: sum.splits if_splits flow.splits prod.splits option.splits
       dest!: parse_step_frame store_trace_frame intro: same_setup_trans)

subsection \<open>The loop and \<^verbatim>\<open>execute\<close>\<close>

text \<open>
  \<^verbatim>\<open>while self._iteration < self.config.max_iterations\<close> (agent.py, line 77). A pass that
  raises, breaks or returns ends the loop; when the condition fails the loop ends with
  \<open>Continue\<close>. Each pass adds one to \<^verbatim>\<open>_iteration\<close> and leaves the configuration alone,
  so the loop terminates.
\<close>

function while_loop ::
  "Agent \<Rightarrow> World \<Rightarrow> BaseInput \<Rightarrow> Locals \<Rightarrow> flow \<times> Agent \<times> World \<times> Locals" where
  "while_loop ag w input_data L =
     (if priv_iteration ag < max_iterations (config ag) then
        (case loop_body ag w input_data L of
           (Continue, ag', w', L') \<Rightarrow> while_loop ag' w' input_data L'
         | other \<Rightarrow> other)
      else (Continue, ag, w, L))"
  by pat_completeness auto
termination
  by (relation "measure (\<lambda>(ag, w, i, L). nat (max_iterations (config ag) - priv_iteration ag))")
     (auto dest!: loop_body_frame [OF sym] simp: same_setup_def)

declare while_loop.simps [simp del]

text \<open>The argument of \<^verbatim>\<open>execute\<close>: a plain string or an envelope.\<close>

datatype exec_input = InStr string | InEnvelope BaseInput

text \<open>
  Lines 143 to 148: with no final answer the state becomes \<^verbatim>\<open>ERROR\<close> and a RuntimeError
  is raised; otherwise the state becomes \<^verbatim>\<open>COMPLETED\<close> and the answer is returned.
\<close>

definition finish ::
  "Agent \<Rightarrow> World \<Rightarrow> BaseOutput option \<Rightarrow> (exn + BaseOutput) \<times> Agent \<times> World" where
  "finish ag w fa =
     (case fa of
        None \<Rightarrow>
          (Inl (RuntimeError ''Max iterations reached without completion''),
           ag\<lparr>state := ERROR\<rparr>, w)
      | Some out \<Rightarrow> (Inr out, ag\<lparr>state := COMPLETED\<rparr>, w))"

text \<open>
  Lines 139 and 140, then \<open>finish\<close>. When no final answer was produced the condition reads
  \<^verbatim>\<open>action\<close>; if no pass of the loop has bound that name, reading it raises
  UnboundLocalError.
\<close>

definition after_loop ::
  "Agent \<Rightarrow> World \<Rightarrow> Locals \<Rightarrow> (exn + BaseOutput) \<times> Agent \<times> World" where
  "after_loop ag w L =
     (case final_answer L of
        Some fa \<Rightarrow> finish ag w (Some fa)
      | None \<Rightarrow>
          (case action_var L of
             None \<Rightarrow>
               (Inl (UnboundLocalError
                  (''cannot access local variable '' @ quoted ''action''
                   @ '' where it is not associated with a value'')), ag, w)
           | Some a \<Rightarrow> finish ag w (Some a)))"

text \<open>Lines 64 to 68: a plain string is wrapped as a \<^verbatim>\<open>TEXT\<close> envelope.\<close>

definition as_envelope :: "exec_input \<Rightarrow> BaseInput" where
  "as_envelope input_data =
     (case input_data of
        InStr s \<Rightarrow> \<lparr> in_type = InputType_TEXT, in_content = PStr s, in_metadata = [] \<rparr>
      | InEnvelope i \<Rightarrow> i)"

text \<open>Line 73, \<^verbatim>\<open>context = context or {}\<close>.\<close>

definition context_or_empty :: "pydict option \<Rightarrow> pydict" where
  "context_or_empty ctx = (case ctx of None \<Rightarrow> [] | Some c \<Rightarrow> c)"

text \<open>The \<^verbatim>\<open>try\<close> block of \<^verbatim>\<open>Agent.execute\<close> (lines 63 to 148).\<close>

definition execute_try ::
  "Agent \<Rightarrow> World \<Rightarrow> exec_input \<Rightarrow> pydict option \<Rightarrow> (exn + BaseOutput) \<times> Agent \<times> World" where
  "execute_try ag w input_data ctx =
     (let inp = as_envelope input_data;
          ag1 = ag\<lparr>state := THINKING, priv_iteration := 0\<rparr>;
          L0 = \<lparr> context_var = context_or_empty ctx, final_answer = None,
                 action_var = None \<rparr>
      in case while_loop ag1 w inp L0 of
           (Raise e, ag2, w2, L) \<Rightarrow> (Inl e, ag2, w2)
         | (Return out, ag2, w2, L) \<Rightarrow> (Inr out, ag2, w2)
         | (Break, ag2, w2, L) \<Rightarrow> after_loop ag2 w2 L
         | (Continue, ag2, w2, L) \<Rightarrow> after_loop ag2 w2 L)"

text \<open>
  \<^verbatim>\<open>Agent.execute\<close>: the handler \<^verbatim>\<open>except Exception as e\<close> sets the state to
  \<^verbatim>\<open>ERROR\<close> and raises the same exception again. The result is what the call returns or
  raises, the agent after the call and the world after the call.
\<close>

definition execute ::
  "Agent \<Rightarrow> World \<Rightarrow> exec_input \<Rightarrow> pydict option \<Rightarrow> (exn + BaseOutput) \<times> Agent \<times> World" where
  "execute ag w input_data ctx =
     (case execute_try ag w input_data ctx of
        (Inl e, ag', w') \<Rightarrow> (Inl e, ag'\<lparr>state := ERROR\<rparr>, w')
      | (Inr out, ag', w') \<Rightarrow> (Inr out, ag', w'))"

section \<open>Example collaborators\<close>

text \<open>
  A tool that returns its input (its validator rejects every input), a model that plays a
  fixed list of replies, the default configuration of \<^verbatim>\<open>AgentConfig\<close>, and an agent
  built from them with the tool registered as \<^verbatim>\<open>echo\<close>.
\<close>

definition echo_tool :: BaseTool where
  "echo_tool =
     \<lparr> name = ''echo'', description = ''Return the input'',
       input_types = [InputType_TEXT], output_type = OutputType_TEXT,
       version = ''1.0.0'', tool_metadata = [],
       tool_execute = (\<lambda>k arg. Inr \<lparr> out_type = OutputType_TEXT,
                                         out_content = in_content arg, out_metadata = [] \<rparr>),
       validate_input = (\<lambda>k arg. Inr False) \<rparr>"

definition scripted_llm :: "(exn + BaseOutput) list \<Rightarrow> BaseLLM" where
  "scripted_llm replies =
     \<lparr> generate = (\<lambda>k prompt mt ss.
         if k < length replies then replies ! k
         else Inl (RuntimeError ''no reply left'')) \<rparr>"

definition default_config :: AgentConfig where
  "default_config =
     \<lparr> max_iterations = 10, mode = STANDARD, allowed_tools = [''*''],
       memory_type = ''default'', trace_enabled = True, max_tokens = None,
       stop_sequences = [], config_metadata = [] \<rparr>"

definition empty_world :: World where
  "empty_world = \<lparr> llm_calls = [], tool_calls = [], store_calls = [] \<rparr>"

definition json_reply :: "pydict \<Rightarrow> BaseOutput" where
  "json_reply d = \<lparr> out_type = OutputType_JSON, out_content = PDict d, out_metadata = [] \<rparr>"

definition echo_agent :: "(exn + BaseOutput) list \<Rightarrow> int \<Rightarrow> BaseMemory option \<Rightarrow> Agent" where
  "echo_agent replies n m =
     Agent_init (scripted_llm replies) (default_config\<lparr>max_iterations := n\<rparr>)
       (Some [(''echo'', echo_tool)]) m ''session-1''"

text \<open>A Redis memory whose server refuses every connection.\<close>

definition unreachable_redis :: BaseMemory where
  "unreachable_redis = RedisMemory (\<lambda>k key. Some ''Connection refused'') ''reactlib:''"

text \<open>Replies of the model, and the parts of what \<^verbatim>\<open>execute\<close> yields.\<close>

definition ok_answer :: BaseOutput where
  "ok_answer = json_reply [(''final_answer'', PDict [(''response'', PStr ''ok'')])]"

definition tool_request :: "string \<Rightarrow> pyval \<Rightarrow> BaseOutput" where
  "tool_request n x = json_reply [(''tool'', PStr n), (''input'', x)]"

definition outcome :: "(exn + BaseOutput) \<times> Agent \<times> World \<Rightarrow> exn + BaseOutput" where
  "outcome res = fst res"

definition agent_after :: "(exn + BaseOutput) \<times> Agent \<times> World \<Rightarrow> Agent" where
  "agent_after res = fst (snd res)"

definition world_after :: "(exn + BaseOutput) \<times> Agent \<times> World \<Rightarrow> World" where
  "world_after res = snd (snd res)"

lemmas example_defs =
  echo_agent_def Agent_init_def default_config_def scripted_llm_def json_reply_def
  empty_world_def echo_tool_def ok_answer_def tool_request_def
  outcome_def agent_after_def world_after_def str_int_def str_nat.simps quoted_def
  unreachable_redis_def RedisMemory_def

lemmas execute_defs =
  execute_def execute_try_def Let_def after_loop_def finish_def loop_body_def
  generate_next_action_def trace_if_enabled_def store_trace_def make_trace_def
  parse_step_def tool_step_def construct_prompt_def as_envelope_def context_or_empty_def
  while_loop.simps

section \<open>What a call adds to the logs\<close>

text \<open>
  The traces a call appended to \<^verbatim>\<open>_traces\<close> and the calls it made to the model, to
  the tools and to the memory: what the logs hold after the call beyond what they held
  before it.
\<close>

definition traces_added :: "Agent \<Rightarrow> Agent \<Rightarrow> BaseTrace list" where
  "traces_added ag ag' = drop (length (priv_traces ag)) (priv_traces ag')"

definition llm_calls_made :: "World \<Rightarrow> World \<Rightarrow> (Prompt \<times> (exn + BaseOutput)) list" where
  "llm_calls_made w w' = drop (length (llm_calls w)) (llm_calls w')"

definition tool_calls_made ::
  "World \<Rightarrow> World \<Rightarrow> (string \<times> BaseInput \<times> (exn + BaseOutput)) list" where
  "tool_calls_made w w' = drop (length (tool_calls w)) (tool_calls w')"

definition store_calls_made :: "World \<Rightarrow> World \<Rightarrow> (string \<times> BaseTrace \<times> exn option) list" where
  "store_calls_made w w' = drop (length (store_calls w)) (store_calls w')"

text \<open>The logs only grow.\<close>

definition grows :: "Agent \<Rightarrow> World \<Rightarrow> Agent \<Rightarrow> World \<Rightarrow> bool" where
  "grows ag w ag' w' \<longleftrightarrow>
     prefix (priv_traces ag) (priv_traces ag') \<and> prefix (llm_calls w) (llm_calls w') \<and>
     prefix (tool_calls w) (tool_calls w') \<and> prefix (store_calls w) (store_calls w')"

text \<open>
  The trace mirror does not fail: tracing is disabled, or no memory is attached, or the
  attached memory accepts every \<^verbatim>\<open>store\<close>.
\<close>

definition mirror_ok :: "Agent \<Rightarrow> bool" where
  "mirror_ok ag \<longleftrightarrow>
     (trace_enabled (config ag) \<longrightarrow>
        (\<forall>m. memory ag = Some m \<longrightarrow> (\<forall>k key t. store m k key t = None)))"

text \<open>The traces one \<^verbatim>\<open>if self.config.trace_enabled\<close> block appends.\<close>

definition new_traces :: "Agent \<Rightarrow> string \<Rightarrow> BaseInput \<Rightarrow> BaseOutput \<Rightarrow> BaseTrace list" where
  "new_traces ag a i out = (if trace_enabled (config ag) then [make_trace ag a i out] else [])"

lemma mirror_ok_upd [simp]:
  "mirror_ok (ag\<lparr>state := s\<rparr>) = mirror_ok ag"
  "mirror_ok (ag\<lparr>priv_iteration := n\<rparr>) = mirror_ok ag"
  "mirror_ok (ag\<lparr>priv_traces := ts\<rparr>) = mirror_ok ag"
  by (simp_all add: mirror_ok_def)

lemma construct_prompt_upd [simp]:
  "construct_prompt (ag\<lparr>state := s\<rparr>) = construct_prompt ag"
  "construct_prompt (ag\<lparr>priv_iteration := n\<rparr>) = construct_prompt ag"
  "construct_prompt (ag\<lparr>priv_traces := ts\<rparr>) = construct_prompt ag"
  by (simp_all add: construct_prompt_def fun_eq_iff)

lemma grows_refl [simp]: "grows ag w ag w"
  by (simp add: grows_def)

lemma grows_trans: "grows a v b w \<Longrightarrow> grows b w c x \<Longrightarrow> grows a v c x"
  by (auto simp: grows_def)

lemma grows_upd [simp]:
  "grows ag w (ag'\<lparr>state := s\<rparr>) w' = grows ag w ag' w'"
  "grows ag w (ag'\<lparr>priv_iteration := n\<rparr>) w' = grows ag w ag' w'"
  "grows (ag\<lparr>state := s\<rparr>) w ag' w' = grows ag w ag' w'"
  "grows (ag\<lparr>priv_iteration := n\<rparr>) w ag' w' = grows ag w ag' w'"
  by (simp_all add: grows_def)

lemma trace_if_enabled_effect:
  "trace_if_enabled ag w a i out = (r, ag', w') \<Longrightarrow>
     ag' = ag\<lparr>priv_traces := priv_traces ag @ new_traces ag a i out\<rparr> \<and>
     llm_calls w' = llm_calls w \<and> tool_calls w' = tool_calls w \<and>
     (mirror_ok ag \<longrightarrow> r = None)"
  by (auto simp: trace_if_enabled_def store_trace_def Let_def mirror_ok_def new_traces_def
      split: option.splits if_splits)

text \<open>
  Invariant reasoning for the loop: \<open>I\<close> holds before every pass, a pass that runs to
  its end re-establishes it, and \<open>Q\<close> holds however the loop ends.
\<close>

lemma while_loop_rule:
  assumes run: "while_loop ag w i L = (fl, ag', w', L')"
    and init: "I ag w L"
    and step: "\<And>ag w L fl ag' w' L'.
        I ag w L \<Longrightarrow> priv_iteration ag < max_iterations (config ag) \<Longrightarrow>
        loop_body ag w i L = (fl, ag', w', L') \<Longrightarrow>
        (if fl = Continue then I ag' w' L' else Q fl ag' w' L')"
    and exit: "\<And>ag w L.
        I ag w L \<Longrightarrow> \<not> priv_iteration ag < max_iterations (config ag) \<Longrightarrow>
        Q Continue ag w L"
  shows "Q fl ag' w' L'"
  using assms
proof (induction ag w i L rule: while_loop.induct)
  case (1 ag w input_data L)
  note run = "1.prems"(1) and init = "1.prems"(2) and step = "1.prems"(3) and exit = "1.prems"(4)
  show ?case
  proof (cases "priv_iteration ag < max_iterations (config ag)")
    case False
    with run have "(fl, ag', w', L') = (Continue, ag, w, L)"
      by (subst (asm) while_loop.simps) simp
    with exit [OF init False] show ?thesis by simp
  next
    case True
    obtain fl1 ag1 w1 L1 where body: "loop_body ag w input_data L = (fl1, ag1, w1, L1)"
      by (cases "loop_body ag w input_data L") auto
    note st = step [OF init True body]
    show ?thesis
    proof (cases "fl1 = Continue")
      case False
      with run True body have "(fl, ag', w', L') = (fl1, ag1, w1, L1)"
        by (subst (asm) while_loop.simps) (simp split: flow.splits)
      with st False show ?thesis by simp
    next
      case c: True
      with run True body have "while_loop ag1 w1 input_data L1 = (fl, ag', w', L')"
        by (subst (asm) while_loop.simps) simp
      moreover from st c have "I ag1 w1 L1" by simp
      ultimately show ?thesis
        using "1.IH" [OF True body [symmetric] c refl refl] step exit by blast
    qed
  qed
qed

section \<open>The tool registry\<close>

text \<open>
  C7. For every registry and every tool whose name is already present, \<^verbatim>\<open>add_tool\<close>
  fails with the ValueError \<^verbatim>\<open>Tool <name> already exists\<close> (the spec's DuplicateTool) and
  the agent, its registry included, is left as it was: no entry is replaced and none is
  added.
\<close>

theorem add_tool_duplicate:
  assumes "name tool \<in> fst ` set (tools ag)"
  shows "add_tool ag tool = (Inl (ValueError (''Tool '' @ name tool @ '' already exists'')), ag)"
proof -
  from assms have "map_of (tools ag) (name tool) \<noteq> None"
    by (simp add: map_of_eq_None_iff)
  then show ?thesis by (simp add: add_tool_def)
qed

theorem add_tool_duplicate_witness:
  "add_tool (echo_agent [] 1 None) echo_tool
     = (Inl (ValueError ''Tool echo already exists''), echo_agent [] 1 None)"
  using add_tool_duplicate [of echo_tool "echo_agent [] 1 None"]
  by (simp add: echo_agent_def Agent_init_def echo_tool_def)

text \<open>
  C8. \<^verbatim>\<open>remove_tool\<close> never raises. For a name that is not in the registry the agent,
  its registry included, is unchanged. For a name that is in the registry exactly the
  entry of that name is deleted: the other entries stay, in their order, and the mapping
  is the old one with the name unbound.
\<close>

theorem remove_tool_effect:
  "fst (remove_tool ag n) = Inr () \<and>
   (n \<notin> fst ` set (tools ag) \<longrightarrow> snd (remove_tool ag n) = ag) \<and>
   (n \<in> fst ` set (tools ag) \<longrightarrow>
      snd (remove_tool ag n) = ag\<lparr>tools := filter (\<lambda>(k, t). k \<noteq> n) (tools ag)\<rparr> \<and>
      map_of (tools (snd (remove_tool ag n))) = (map_of (tools ag))(n := None))"
proof -
  have "map_of (AList.delete n (tools ag)) = (map_of (tools ag))(n := None)"
    by (rule ext) (simp add: delete_conv)
  moreover have "AList.delete n (tools ag) = filter (\<lambda>(k, t). k \<noteq> n) (tools ag)"
    by (auto simp: AList.delete_eq intro: filter_cong)
  ultimately show ?thesis
    by (auto simp: remove_tool_def map_of_eq_None_iff)
qed

theorem remove_tool_effect_witness:
  "remove_tool (echo_agent [] 1 None) ''search'' = (Inr (), echo_agent [] 1 None) \<and>
   tools (snd (remove_tool (echo_agent [] 1 None) ''echo'')) = []"
  using remove_tool_effect [of "echo_agent [] 1 None" "''search''"]
    remove_tool_effect [of "echo_agent [] 1 None" "''echo''"]
  by (simp add: echo_agent_def Agent_init_def remove_tool_def AList.delete_eq)

section \<open>The reasoning loop\<close>

text \<open>
  C2, as the code has it. Let the first reply of the model (so the iteration bound is
  positive) be a \<^verbatim>\<open>JSON\<close> envelope whose content is a dict with a \<^verbatim>\<open>final_answer\<close>
  key, and let the trace mirror not fail: tracing is disabled, or no memory is attached, or
  the memory accepts every \<^verbatim>\<open>store\<close>. Then \<^verbatim>\<open>execute\<close> makes exactly one model call and
  no tool call, returns the envelope of kind \<^verbatim>\<open>JSON\<close> whose content is the value under
  \<^verbatim>\<open>final_answer\<close> and whose metadata is that of the model's reply, and leaves the state
  \<^verbatim>\<open>COMPLETED\<close>; with tracing enabled it appends exactly one trace, labelled
  \<^verbatim>\<open>llm_generation\<close>, and with tracing disabled none.
\<close>

theorem execute_final_answer_first:
  assumes pos: "0 < max_iterations (config ag)"
    and reply: "generate (llm ag) (length (llm_calls w))
                  (construct_prompt ag (as_envelope input_data) (context_or_empty ctx))
                  (max_tokens (config ag)) (stop_sequences (config ag)) = Inr act"
    and json: "out_type act = OutputType_JSON" "out_content act = PDict d"
    and key: "map_of d ''final_answer'' = Some v"
    and mirror: "mirror_ok ag"
  shows "\<exists>ag' w'.
           execute ag w input_data ctx =
             (Inr \<lparr> out_type = OutputType_JSON, out_content = v,
                    out_metadata = out_metadata act \<rparr>, ag', w') \<and>
           llm_calls w' = llm_calls w @
             [(construct_prompt ag (as_envelope input_data) (context_or_empty ctx), Inr act)] \<and>
           tool_calls w' = tool_calls w \<and>
           state ag' = COMPLETED \<and>
           priv_traces ag' = priv_traces ag @
             (if trace_enabled (config ag)
              then [\<lparr> session_id = priv_session_id ag, action = ''llm_generation'',
                       trace_input = as_envelope input_data, trace_output = act,
                       trace_metadata = [(''iteration'', PInt 1),
                                         (''state'', PStr ''thinking'')] \<rparr>]
              else [])"
proof -
  let ?inp = "as_envelope input_data"
  let ?ag0 = "ag\<lparr>state := THINKING, priv_iteration := 0\<rparr>"
  let ?ag1 = "?ag0\<lparr>priv_iteration := priv_iteration ?ag0 + 1, state := THINKING\<rparr>"
  let ?L0 = "\<lparr> context_var = context_or_empty ctx, final_answer = None, action_var = None \<rparr>"
  let ?p = "construct_prompt ag ?inp (context_or_empty ctx)"
  let ?w1 = "w\<lparr>llm_calls := llm_calls w @ [(?p, Inr act)]\<rparr>"
  let ?fa = "\<lparr> out_type = OutputType_JSON, out_content = v, out_metadata = out_metadata act \<rparr>"
  have gen: "generate_next_action ?ag1 w ?inp (context_or_empty ctx) = (Inr act, ?w1)"
    using reply by (simp add: generate_next_action_def Let_def)
  obtain r ag2 w2 where tr: "trace_if_enabled ?ag1 ?w1 ''llm_generation'' ?inp act = (r, ag2, w2)"
    by (cases "trace_if_enabled ?ag1 ?w1 ''llm_generation'' ?inp act") auto
  from trace_if_enabled_effect [OF tr] mirror
  have r: "r = None"
    and ag2: "ag2 = ?ag1\<lparr>priv_traces := priv_traces ?ag1
                                @ new_traces ?ag1 ''llm_generation'' ?inp act\<rparr>"
    and w2: "llm_calls w2 = llm_calls ?w1" "tool_calls w2 = tool_calls ?w1"
    by simp_all
  have parse: "parse_step ag2 w2 ?inp (?L0\<lparr>action_var := Some act\<rparr>) act =
      (Break, ag2, w2, ?L0\<lparr>action_var := Some act, final_answer := Some ?fa\<rparr>)"
    using json key by (simp add: parse_step_def Let_def)
  have body: "loop_body ?ag0 w ?inp ?L0 =
      (Break, ag2, w2, ?L0\<lparr>action_var := Some act, final_answer := Some ?fa\<rparr>)"
    using gen tr r parse by (simp add: loop_body_def Let_def)
  have loop: "while_loop ?ag0 w ?inp ?L0 =
      (Break, ag2, w2, ?L0\<lparr>action_var := Some act, final_answer := Some ?fa\<rparr>)"
    using pos body by (subst while_loop.simps) simp
  have "execute ag w input_data ctx = (Inr ?fa, ag2\<lparr>state := COMPLETED\<rparr>, w2)"
    using loop by (simp add: execute_def execute_try_def Let_def after_loop_def finish_def)
  moreover have "priv_traces (ag2\<lparr>state := COMPLETED\<rparr>) = priv_traces ag @
             (if trace_enabled (config ag)
              then [\<lparr> session_id = priv_session_id ag, action = ''llm_generation'',
                       trace_input = as_envelope input_data, trace_output = act,
                       trace_metadata = [(''iteration'', PInt 1),
                                         (''state'', PStr ''thinking'')] \<rparr>]
              else [])"
    by (simp add: ag2 new_traces_def make_trace_def)
  ultimately show ?thesis
    using w2 by (intro exI[of _ "ag2\<lparr>state := COMPLETED\<rparr>"] exI[of _ w2]) simp
qed

text \<open>
  The scenario of the specification: bound 1, the single reply
  \<^verbatim>\<open>{"final_answer": {"response": "ok"}}\<close>, tracing enabled.
\<close>

theorem execute_final_answer_first_witness:
  "case execute
          (echo_agent [Inr (json_reply [(''final_answer'', PDict [(''response'', PStr ''ok'')])])]
             1 None)
          empty_world (InStr ''question'') None of
     (r, ag', w') \<Rightarrow>
        r = Inr \<lparr> out_type = OutputType_JSON, out_content = PDict [(''response'', PStr ''ok'')],
                   out_metadata = [] \<rparr> \<and>
        state ag' = COMPLETED \<and> length (priv_traces ag') = 1 \<and>
        length (llm_calls w') = 1 \<and> tool_calls w' = []"
  using execute_final_answer_first
    [of "echo_agent [Inr (json_reply [(''final_answer'', PDict [(''response'', PStr ''ok'')])])]
           1 None"
        empty_world "InStr ''question''" None
        "json_reply [(''final_answer'', PDict [(''response'', PStr ''ok'')])]"
        "[(''final_answer'', PDict [(''response'', PStr ''ok'')])]"
        "PDict [(''response'', PStr ''ok'')]"]
  by (auto simp: echo_agent_def Agent_init_def default_config_def scripted_llm_def
        json_reply_def empty_world_def mirror_ok_def)

text \<open>
  C2 as stated fails: the first reply is a \<^verbatim>\<open>JSON\<close> dict with \<^verbatim>\<open>final_answer\<close>, tracing
  is enabled and the Redis memory cannot be reached. The trace of the model call is stored
  before the reply is parsed, \<^verbatim>\<open>memory.store\<close> raises, and \<^verbatim>\<open>execute\<close> raises that
  RuntimeError with state \<^verbatim>\<open>ERROR\<close> instead of returning the answer.
\<close>

definition answer_mirror_run :: "(exn + BaseOutput) \<times> Agent \<times> World" where
  "answer_mirror_run =
     execute (echo_agent [Inr ok_answer] 5 (Some unreachable_redis))
       empty_world (InStr ''What is 2 + 2?'') None"

theorem final_answer_mirror_counterexample:
  "map snd (llm_calls (world_after answer_mirror_run)) = [Inr ok_answer] \<and>
   out_type ok_answer = OutputType_JSON \<and>
   py_contains ''final_answer'' (out_content ok_answer) = Inr True \<and>
   outcome answer_mirror_run = Inl (RuntimeError ''Redis storage error: Connection refused'') \<and>
   state (agent_after answer_mirror_run) = ERROR"
  by (simp add: answer_mirror_run_def example_defs execute_defs)

text \<open>
  C6. With a non-positive iteration bound the loop body never runs and no action is
  produced. \<^verbatim>\<open>execute\<close> then reads the unbound local \<^verbatim>\<open>action\<close> at line 139: the call
  fails with UnboundLocalError, not with the RuntimeError of line 145, and the handler
  sets the state to \<^verbatim>\<open>ERROR\<close>.
\<close>

theorem execute_nonpositive_bound:
  assumes "max_iterations (config ag) \<le> 0"
  shows "execute ag w input_data ctx =
           (Inl (UnboundLocalError (''cannot access local variable '' @ quoted ''action''
                   @ '' where it is not associated with a value'')),
            ag\<lparr>state := ERROR, priv_iteration := 0\<rparr>, w)"
  using assms
  by (simp add: execute_def execute_try_def Let_def after_loop_def while_loop.simps)

theorem execute_nonpositive_bound_witness:
  "execute (echo_agent [] 0 None) empty_world (InStr ''hello'') None =
     (Inl (UnboundLocalError
        ''cannot access local variable 'action' where it is not associated with a value''),
      (echo_agent [] 0 None)\<lparr>state := ERROR\<rparr>, empty_world)"
  using execute_nonpositive_bound [of "echo_agent [] 0 None" empty_world "InStr ''hello''" None]
  by (simp add: echo_agent_def Agent_init_def default_config_def quoted_def)

text \<open>The RuntimeError of line 145 is never what the code after the loop raises.\<close>

lemma after_loop_no_runtime_error:
  "fst (after_loop ag w L) \<noteq> Inl (RuntimeError ''Max iterations reached without completion'')"
  by (simp add: after_loop_def finish_def split: option.splits)

section \<open>Session identifier and trace log across calls\<close>

text \<open>
  \<open>appended xs ys P\<close>: the list \<open>ys\<close> is \<open>xs\<close> with elements added at its end, each of
  which satisfies \<open>P\<close>.
\<close>

definition appended :: "'a list \<Rightarrow> 'a list \<Rightarrow> ('a \<Rightarrow> bool) \<Rightarrow> bool" where
  "appended xs ys P \<longleftrightarrow> prefix xs ys \<and> list_all P (drop (length xs) ys)"

text \<open>
  A trace the agent records: it carries the agent's session identifier and its label is
  \<^verbatim>\<open>llm_generation\<close> or \<^verbatim>\<open>tool_execution:<name>\<close> for a registered name.
\<close>

definition trace_of_agent :: "Agent \<Rightarrow> BaseTrace \<Rightarrow> bool" where
  "trace_of_agent ag t \<longleftrightarrow>
     session_id t = priv_session_id ag \<and>
     (action t = ''llm_generation'' \<or>
      (\<exists>n. map_of (tools ag) n \<noteq> None \<and> action t = ''tool_execution:'' @ n))"

definition session_kept :: "Agent \<Rightarrow> Agent \<Rightarrow> bool" where
  "session_kept ag ag' \<longleftrightarrow>
     same_setup ag ag' \<and> appended (priv_traces ag) (priv_traces ag') (trace_of_agent ag)"

text \<open>Two calls in a row on one agent whose model answers at once both times.\<close>

definition two_answers_agent :: Agent where
  "two_answers_agent = echo_agent [Inr ok_answer, Inr ok_answer] 1 None"

definition first_call :: "(exn + BaseOutput) \<times> Agent \<times> World" where
  "first_call = execute two_answers_agent empty_world (InStr ''first'') None"

definition second_call :: "(exn + BaseOutput) \<times> Agent \<times> World" where
  "second_call =
     execute (agent_after first_call) (world_after first_call) (InStr ''second'') None"

lemma appended_refl [simp]: "appended xs xs P"
  by (simp add: appended_def)

lemma appended_snoc [simp]: "appended xs (xs @ [x]) P \<longleftrightarrow> P x"
  by (simp add: appended_def)

lemma appended_trans: "appended xs ys P \<Longrightarrow> appended ys zs P \<Longrightarrow> appended xs zs P"
  by (auto simp: appended_def prefix_def)

lemma trace_of_agent_cong: "same_setup ag ag' \<Longrightarrow> trace_of_agent ag' = trace_of_agent ag"
  by (auto simp: trace_of_agent_def same_setup_def fun_eq_iff)

lemma trace_of_agent_upd [simp]:
  "trace_of_agent (ag\<lparr>state := s\<rparr>) = trace_of_agent ag"
  "trace_of_agent (ag\<lparr>priv_iteration := k\<rparr>) = trace_of_agent ag"
  by (simp_all add: trace_of_agent_def fun_eq_iff)

lemma session_kept_refl [simp]: "session_kept ag ag"
  by (simp add: session_kept_def)

lemma session_kept_trans: "session_kept a b \<Longrightarrow> session_kept b c \<Longrightarrow> session_kept a c"
  unfolding session_kept_def
  by (auto simp: trace_of_agent_cong intro: appended_trans same_setup_trans)

lemma session_kept_upd [simp]:
  "session_kept ag (ag'\<lparr>state := s\<rparr>) = session_kept ag ag'"
  "session_kept ag (ag'\<lparr>priv_iteration := n\<rparr>) = session_kept ag ag'"
  "session_kept (ag\<lparr>state := s\<rparr>) ag' = session_kept ag ag'"
  "session_kept (ag\<lparr>priv_iteration := n\<rparr>) ag' = session_kept ag ag'"
  by (simp_all add: session_kept_def)

lemma store_trace_session:
  "trace_if_enabled ag w a i out = (r, ag', w') \<Longrightarrow>
   a = ''llm_generation'' \<or> (\<exists>n. map_of (tools ag) n \<noteq> None \<and> a = ''tool_execution:'' @ n) \<Longrightarrow>
   session_kept ag ag'"
  by (auto simp: trace_if_enabled_def store_trace_def Let_def make_trace_def session_kept_def
        trace_of_agent_def split: option.splits if_splits)

lemma tools_lookup_Found:
  "tools_lookup v ts = Found s t \<Longrightarrow> v = PStr s \<and> map_of ts s = Some t"
  by (cases v) (auto split: option.splits)

lemma tool_step_session:
  "tool_step ag w i L rd = (fl, ag', w', L') \<Longrightarrow> session_kept ag ag'"
  unfolding tool_step_def Let_def
  by (auto split: sum.splits lookup.splits option.splits prod.splits
      dest!: store_trace_session tools_lookup_Found)

lemma parse_step_session:
  "parse_step ag w i L act = (fl, ag', w', L') \<Longrightarrow> session_kept ag ag'"
  unfolding parse_step_def Let_def
  by (auto split: sum.splits if_splits bool.splits dest!: tool_step_session)

lemma loop_body_session:
  "loop_body ag w i L = (fl, ag', w', L') \<Longrightarrow> session_kept ag ag'"
  unfolding loop_body_def Let_def generate_next_action_def
  by (auto split: sum.splits flow.splits prod.splits option.splits
      dest!: parse_step_session store_trace_session intro: session_kept_trans)

lemma while_loop_session:
  assumes "while_loop ag w i L = (fl, ag', w', L')"
  shows "session_kept ag ag'"
  by (rule while_loop_rule [OF assms, where I = "\<lambda>a v M. session_kept ag a"
        and Q = "\<lambda>f a v M. session_kept ag a"])
     (auto dest!: loop_body_session intro: session_kept_trans)

lemma execute_session:
  assumes "execute ag w input_data ctx = (r, ag', w')"
  shows "session_kept ag ag'"
  using assms unfolding execute_def execute_try_def Let_def after_loop_def finish_def
  by (auto split: prod.splits sum.splits flow.splits option.splits dest!: while_loop_session)

text \<open>
  C5, as the code has it. The session identifier is the token \<^verbatim>\<open>__init__\<close> generated
  and \<^verbatim>\<open>execute\<close> never replaces it; \<^verbatim>\<open>execute\<close> keeps the traces the agent already
  holds and appends its own, each under that same identifier; of the three, only the
  iteration counter starts afresh: the call does not depend on the value the counter had.
\<close>

theorem execute_keeps_session:
  "priv_session_id (Agent_init l c ts m uuid) = uuid \<and>
   priv_session_id (agent_after (execute ag w input_data ctx)) = priv_session_id ag \<and>
   prefix (priv_traces ag) (priv_traces (agent_after (execute ag w input_data ctx))) \<and>
   list_all (\<lambda>t. session_id t = priv_session_id ag)
     (traces_added ag (agent_after (execute ag w input_data ctx))) \<and>
   execute (ag\<lparr>priv_iteration := k\<rparr>) w input_data ctx = execute ag w input_data ctx"
proof -
  obtain r ag' w' where ex: "execute ag w input_data ctx = (r, ag', w')"
    by (cases "execute ag w input_data ctx") auto
  from execute_session [OF ex]
  have "same_setup ag ag'" and app: "appended (priv_traces ag) (priv_traces ag') (trace_of_agent ag)"
    by (simp_all add: session_kept_def)
  then have "priv_session_id ag' = priv_session_id ag"
    and "prefix (priv_traces ag) (priv_traces ag')"
    by (simp_all add: same_setup_def appended_def)
  moreover from app have "list_all (\<lambda>t. session_id t = priv_session_id ag) (traces_added ag ag')"
    by (auto simp: appended_def traces_added_def trace_of_agent_def list_all_iff)
  moreover have "execute (ag\<lparr>priv_iteration := k\<rparr>) w input_data ctx = execute ag w input_data ctx"
    by (simp add: execute_def execute_try_def)
  ultimately show ?thesis
    using ex by (simp add: agent_after_def Agent_init_def)
qed

theorem execute_keeps_session_witness:
  "priv_session_id (agent_after second_call) = ''session-1'' \<and>
   prefix (priv_traces (agent_after first_call)) (priv_traces (agent_after second_call)) \<and>
   map session_id (traces_added (agent_after first_call) (agent_after second_call))
     = [''session-1'']"
  using execute_keeps_session
    [of "scripted_llm [Inr ok_answer, Inr ok_answer]" "default_config\<lparr>max_iterations := 1\<rparr>"
        "Some [(''echo'', echo_tool)]" None "''session-1''"
        "agent_after first_call" "world_after first_call" "InStr ''second''" None 0]
  by (simp add: second_call_def first_call_def two_answers_agent_def traces_added_def
        example_defs execute_defs)

text \<open>
  C5 as stated fails: the second call starts from the agent the first call left, whose
  trace log is not empty and whose session identifier is the one of the first call; after
  the second call the log holds the traces of both calls, under one identifier.
\<close>

theorem second_call_session_counterexample:
  "priv_traces (agent_after first_call) \<noteq> [] \<and>
   priv_session_id (agent_after first_call) = priv_session_id two_answers_agent \<and>
   map session_id (priv_traces (agent_after second_call)) = [''session-1'', ''session-1''] \<and>
   map (in_content \<circ> trace_input) (priv_traces (agent_after second_call))
     = [PStr ''first'', PStr ''second'']"
  by (simp add: second_call_def first_call_def two_answers_agent_def example_defs execute_defs)

section \<open>Failures of the collaborators\<close>

text \<open>
  \<open>failed_in w w' e\<close>: among the calls made between the worlds \<open>w\<close> and \<open>w'\<close>, a model
  call, a tool call or a \<^verbatim>\<open>memory.store\<close> raised \<open>e\<close>.
\<close>

definition failed_in :: "World \<Rightarrow> World \<Rightarrow> exn \<Rightarrow> bool" where
  "failed_in w w' e \<longleftrightarrow>
     (\<exists>p. (p, Inl e) \<in> set (llm_calls_made w w')) \<or>
     (\<exists>n a. (n, a, Inl e) \<in> set (tool_calls_made w w')) \<or>
     (\<exists>k t. (k, t, Some e) \<in> set (store_calls_made w w'))"

text \<open>Whatever a collaborator raised between \<open>w\<close> and \<open>w'\<close> is what the flow raises.\<close>

definition surfaced :: "flow \<Rightarrow> World \<Rightarrow> World \<Rightarrow> bool" where
  "surfaced fl w w' \<longleftrightarrow>
     prefix (llm_calls w) (llm_calls w') \<and> prefix (tool_calls w) (tool_calls w') \<and>
     prefix (store_calls w) (store_calls w') \<and> (\<forall>e. failed_in w w' e \<longrightarrow> fl = Raise e)"

definition flow_of :: "exn option \<Rightarrow> flow" where
  "flow_of r = (case r of None \<Rightarrow> Continue | Some e \<Rightarrow> Raise e)"

text \<open>A search tool whose backend is down, and an agent that has only this tool.\<close>

definition broken_search :: BaseTool where
  "broken_search =
     \<lparr> name = ''search'', description = ''Search the web'',
       input_types = [InputType_TEXT], output_type = OutputType_JSON,
       version = ''1.0.0'', tool_metadata = [],
       tool_execute = (\<lambda>k arg. Inl (RuntimeError ''Search execution error: 503'')),
       validate_input = (\<lambda>k arg. Inr True) \<rparr>"

definition search_agent :: "(exn + BaseOutput) list \<Rightarrow> Agent" where
  "search_agent replies =
     Agent_init (scripted_llm replies) default_config
       (Some [(''search'', broken_search)]) None ''session-2''"

lemma surfaced_refl [simp]: "surfaced fl w w"
  by (simp add: surfaced_def failed_in_def llm_calls_made_def tool_calls_made_def
        store_calls_made_def)

lemma surfaced_trans:
  assumes "surfaced Continue w v" and "surfaced fl v w'"
  shows "surfaced fl w w'"
proof -
  from assms obtain a b c d f g where
    "llm_calls v = llm_calls w @ a" "llm_calls w' = llm_calls v @ b"
    "tool_calls v = tool_calls w @ c" "tool_calls w' = tool_calls v @ d"
    "store_calls v = store_calls w @ f" "store_calls w' = store_calls v @ g"
    unfolding surfaced_def prefix_def by blast
  with assms show ?thesis
    unfolding surfaced_def failed_in_def llm_calls_made_def tool_calls_made_def
      store_calls_made_def
    by auto
qed

lemma surfaced_after_llm_ok:
  "surfaced fl (w\<lparr>llm_calls := llm_calls w @ [(p, Inr x)]\<rparr>) w' \<Longrightarrow> surfaced fl w w'"
  by (rule surfaced_trans [where v = "w\<lparr>llm_calls := llm_calls w @ [(p, Inr x)]\<rparr>"])
     (simp_all add: surfaced_def failed_in_def llm_calls_made_def tool_calls_made_def
        store_calls_made_def)

lemma surfaced_after_tool_ok:
  "surfaced fl (w\<lparr>tool_calls := tool_calls w @ [(n, a, Inr x)]\<rparr>) w' \<Longrightarrow> surfaced fl w w'"
  by (rule surfaced_trans [where v = "w\<lparr>tool_calls := tool_calls w @ [(n, a, Inr x)]\<rparr>"])
     (simp_all add: surfaced_def failed_in_def llm_calls_made_def tool_calls_made_def
        store_calls_made_def)

lemma surfaced_llm_failed [simp]:
  "surfaced (Raise e) w (w\<lparr>llm_calls := llm_calls w @ [(p, Inl e)]\<rparr>)"
  by (simp add: surfaced_def failed_in_def llm_calls_made_def tool_calls_made_def
        store_calls_made_def)

lemma surfaced_tool_failed [simp]:
  "surfaced (Raise e) w (w\<lparr>tool_calls := tool_calls w @ [(n, a, Inl e)]\<rparr>)"
  by (simp add: surfaced_def failed_in_def llm_calls_made_def tool_calls_made_def
        store_calls_made_def)

lemma surfaced_any: "surfaced Continue w w' \<Longrightarrow> surfaced fl w w'"
  by (simp add: surfaced_def)

lemma trace_if_enabled_surfaced:
  "trace_if_enabled ag w a i out = (r, ag', w') \<Longrightarrow> surfaced (flow_of r) w w'"
  by (auto simp: trace_if_enabled_def store_trace_def Let_def surfaced_def failed_in_def
        flow_of_def llm_calls_made_def tool_calls_made_def store_calls_made_def
      split: option.splits if_splits)

lemma tool_step_surfaced:
  "tool_step ag w i L rd = (fl, ag', w', L') \<Longrightarrow> surfaced fl w w'"
  unfolding tool_step_def Let_def
  by (auto split: sum.splits lookup.splits option.splits prod.splits
      dest!: trace_if_enabled_surfaced surfaced_after_tool_ok simp: flow_of_def)

lemma parse_step_surfaced:
  "parse_step ag w i L act = (fl, ag', w', L') \<Longrightarrow> surfaced fl w w'"
  unfolding parse_step_def Let_def
  by (auto split: sum.splits if_splits bool.splits dest!: tool_step_surfaced)

lemma loop_body_surfaced:
  "loop_body ag w i L = (fl, ag', w', L') \<Longrightarrow> surfaced fl w w'"
  unfolding loop_body_def Let_def generate_next_action_def
  by (auto split: sum.splits flow.splits prod.splits option.splits
      dest!: parse_step_surfaced trace_if_enabled_surfaced surfaced_after_llm_ok
      simp: flow_of_def intro: surfaced_trans surfaced_any)

lemma while_loop_surfaced:
  assumes "while_loop ag w i L = (fl, ag', w', L')"
  shows "surfaced fl w w'"
  by (rule while_loop_rule [OF assms, where I = "\<lambda>a v M. surfaced Continue w v"
        and Q = "\<lambda>f a v M. surfaced f w v"])
     (auto dest!: loop_body_surfaced intro: surfaced_trans)

text \<open>
  C4, as the code has it. Whatever a model call, a tool call or \<^verbatim>\<open>memory.store\<close>
  raises during \<^verbatim>\<open>execute\<close> is raised by \<^verbatim>\<open>execute\<close>, unchanged, and the state is
  \<^verbatim>\<open>ERROR\<close>. The failure of the trace mirror is no exception: \<^verbatim>\<open>_store_trace\<close> has no
  handler, so it fails the call like the two others.
\<close>

theorem collaborator_failure_propagates:
  assumes run: "execute ag w input_data ctx = (r, ag', w')"
    and failed: "(\<exists>p. (p, Inl e) \<in> set (llm_calls_made w w')) \<or>
                 (\<exists>n a. (n, a, Inl e) \<in> set (tool_calls_made w w')) \<or>
                 (\<exists>k t. (k, t, Some e) \<in> set (store_calls_made w w'))"
  shows "r = Inl e \<and> state ag' = ERROR"
proof -
  let ?ag0 = "ag\<lparr>state := THINKING, priv_iteration := 0\<rparr>"
  let ?L0 = "\<lparr> context_var = context_or_empty ctx, final_answer = None, action_var = None \<rparr>"
  obtain fl ag1 w1 L1 where
    loop: "while_loop ?ag0 w (as_envelope input_data) ?L0 = (fl, ag1, w1, L1)"
    by (cases "while_loop ?ag0 w (as_envelope input_data) ?L0") auto
  have w1: "w1 = w'"
    using run loop
    by (auto simp: execute_def execute_try_def Let_def after_loop_def finish_def
          split: flow.splits option.splits sum.splits prod.splits)
  from while_loop_surfaced [OF loop] failed have fl: "fl = Raise e"
    unfolding surfaced_def failed_in_def w1 by blast
  show ?thesis
    using run loop fl by (auto simp: execute_def execute_try_def Let_def)
qed

theorem collaborator_failure_propagates_witness:
  "outcome (execute (echo_agent [Inl (TimeoutError ''Request timed out'')] 3 None)
              empty_world (InStr ''question'') None)
     = Inl (TimeoutError ''Request timed out'') \<and>
   outcome (execute (search_agent [Inr (tool_request ''search'' (PStr ''isabelle''))])
              empty_world (InStr ''question'') None)
     = Inl (RuntimeError ''Search execution error: 503'') \<and>
   state (agent_after (execute (echo_agent [Inr (tool_request ''echo'' (PStr ''a''))] 3
              (Some unreachable_redis)) empty_world (InStr ''question'') None)) = ERROR"
  using
    collaborator_failure_propagates
      [of "echo_agent [Inl (TimeoutError ''Request timed out'')] 3 None"
          empty_world "InStr ''question''" None _ _ _ "TimeoutError ''Request timed out''"]
    collaborator_failure_propagates
      [of "search_agent [Inr (tool_request ''search'' (PStr ''isabelle''))]"
          empty_world "InStr ''question''" None _ _ _
          "RuntimeError ''Search execution error: 503''"]
    collaborator_failure_propagates
      [of "echo_agent [Inr (tool_request ''echo'' (PStr ''a''))] 3 (Some unreachable_redis)"
          empty_world "InStr ''question''" None _ _ _
          "RuntimeError ''Redis storage error: Connection refused''"]
  by (simp add: example_defs execute_defs search_agent_def broken_search_def
        llm_calls_made_def tool_calls_made_def store_calls_made_def)

text \<open>
  C4 as stated fails: with tracing enabled and a Redis memory that cannot be reached, the
  model answers at once, the trace is appended to the local log, \<^verbatim>\<open>memory.store\<close>
  raises, and \<^verbatim>\<open>execute\<close> raises that RuntimeError instead of returning the answer.
\<close>

theorem mirror_failure_counterexample:
  "outcome (execute (echo_agent [Inr ok_answer] 1 (Some unreachable_redis))
              empty_world (InStr ''question'') None)
     = Inl (RuntimeError ''Redis storage error: Connection refused'') \<and>
   state (agent_after (execute (echo_agent [Inr ok_answer] 1 (Some unreachable_redis))
              empty_world (InStr ''question'') None)) = ERROR \<and>
   map action (priv_traces (agent_after (execute
              (echo_agent [Inr ok_answer] 1 (Some unreachable_redis))
              empty_world (InStr ''question'') None))) = [''llm_generation''] \<and>
   map fst (store_calls (world_after (execute
              (echo_agent [Inr ok_answer] 1 (Some unreachable_redis))
              empty_world (InStr ''question'') None))) = [''trace:session-1:1'']"
  by (simp add: example_defs execute_defs)

section \<open>Exhausting the iteration bound\<close>

text \<open>
  A reply that decides nothing: it is not of kind \<^verbatim>\<open>JSON\<close>, or its content holds
  neither \<^verbatim>\<open>final_answer\<close> nor \<^verbatim>\<open>tool\<close>.
\<close>

definition no_decision :: "BaseOutput \<Rightarrow> bool" where
  "no_decision act \<longleftrightarrow>
     out_type act \<noteq> OutputType_JSON \<or>
     (py_contains ''final_answer'' (out_content act) = Inr False \<and>
      py_contains ''tool'' (out_content act) = Inr False)"

text \<open>A model that never decides, and a run of two passes with it.\<close>

definition musing_llm :: BaseLLM where
  "musing_llm =
     \<lparr> generate = (\<lambda>k prompt mt ss.
         Inr \<lparr> out_type = OutputType_TEXT, out_content = PStr ''Let me think'',
                out_metadata = [(''call'', PInt (int k))] \<rparr>) \<rparr>"

definition musing_run :: "(exn + BaseOutput) \<times> Agent \<times> World" where
  "musing_run =
     execute (Agent_init musing_llm (default_config\<lparr>max_iterations := 2\<rparr>)
                (Some [(''echo'', echo_tool)]) None ''session-3'')
       empty_world (InStr ''question'') None"

lemma loop_body_no_decision:
  assumes gen: "generate (llm ag) (length (llm_calls w)) (construct_prompt ag i (context_var L))
                  (max_tokens (config ag)) (stop_sequences (config ag)) = Inr act"
    and plain: "no_decision act" and mirror: "mirror_ok ag" and fa: "final_answer L = None"
  shows "\<exists>ag' w'. loop_body ag w i L = (Continue, ag', w', L\<lparr>action_var := Some act\<rparr>) \<and>
           llm_calls w' = llm_calls w @ [(construct_prompt ag i (context_var L), Inr act)] \<and>
           tool_calls w' = tool_calls w"
proof -
  let ?ag1 = "ag\<lparr>priv_iteration := priv_iteration ag + 1, state := THINKING\<rparr>"
  let ?p = "construct_prompt ag i (context_var L)"
  let ?w1 = "w\<lparr>llm_calls := llm_calls w @ [(?p, Inr act)]\<rparr>"
  let ?L1 = "L\<lparr>action_var := Some act\<rparr>"
  have g: "generate_next_action ?ag1 w i (context_var L) = (Inr act, ?w1)"
    using gen by (simp add: generate_next_action_def Let_def)
  obtain r ag2 w2 where tr: "trace_if_enabled ?ag1 ?w1 ''llm_generation'' i act = (r, ag2, w2)"
    by (cases "trace_if_enabled ?ag1 ?w1 ''llm_generation'' i act") auto
  from trace_if_enabled_effect [OF tr] mirror
  have r: "r = None" and w2: "llm_calls w2 = llm_calls ?w1" "tool_calls w2 = tool_calls ?w1"
    by simp_all
  have parse: "parse_step ag2 w2 i ?L1 act = (Continue, ag2, w2, ?L1)"
    using plain by (auto simp: parse_step_def Let_def no_decision_def)
  have "loop_body ag w i L = (Continue, ag2, w2, ?L1)"
    using g tr r parse fa by (simp add: loop_body_def Let_def)
  with w2 show ?thesis by simp
qed

text \<open>
  C1, as the code has it. Let the iteration bound be \<open>N \<ge> 1\<close>, let every reply of the
  model decide nothing, and let the trace mirror not fail: tracing is disabled, or no memory
  is attached, or the memory accepts every \<^verbatim>\<open>store\<close>. Then \<^verbatim>\<open>execute\<close> makes exactly
  \<open>N\<close> model calls and no tool call, and returns, with state \<^verbatim>\<open>COMPLETED\<close>, the envelope
  the last model call produced: it does not raise.
\<close>

theorem execute_falls_back_to_last_action:
  assumes bound: "max_iterations (config ag) = N" "1 \<le> N"
    and model: "\<forall>k p. \<exists>act. generate (llm ag) k p (max_tokens (config ag))
                              (stop_sequences (config ag)) = Inr act \<and> no_decision act"
    and mirror: "mirror_ok ag"
  shows "(\<exists>act. outcome (execute ag w input_data ctx) = Inr act) \<and>
         outcome (execute ag w input_data ctx)
           = snd (last (llm_calls (world_after (execute ag w input_data ctx)))) \<and>
         length (llm_calls_made w (world_after (execute ag w input_data ctx))) = nat N \<and>
         tool_calls_made w (world_after (execute ag w input_data ctx)) = [] \<and>
         state (agent_after (execute ag w input_data ctx)) = COMPLETED"
proof -
  let ?inp = "as_envelope input_data"
  let ?ag0 = "ag\<lparr>state := THINKING, priv_iteration := 0\<rparr>"
  let ?L0 = "\<lparr> context_var = context_or_empty ctx, final_answer = None, action_var = None \<rparr>"
  let ?I = "\<lambda>a v M. same_setup ag a \<and> final_answer M = None \<and>
              0 \<le> priv_iteration a \<and> priv_iteration a \<le> N \<and>
              prefix (llm_calls w) (llm_calls v) \<and>
              length (llm_calls v) = length (llm_calls w) + nat (priv_iteration a) \<and>
              tool_calls v = tool_calls w \<and>
              (0 < priv_iteration a \<longrightarrow>
                 (\<exists>act. action_var M = Some act \<and> llm_calls v \<noteq> [] \<and>
                        snd (last (llm_calls v)) = Inr act))"
  let ?Q = "\<lambda>fl a v M. fl = Continue \<and> ?I a v M \<and> priv_iteration a = N"
  obtain fl ag1 w1 L1 where loop: "while_loop ?ag0 w ?inp ?L0 = (fl, ag1, w1, L1)"
    by (cases "while_loop ?ag0 w ?inp ?L0") auto
  have "?Q fl ag1 w1 L1"
  proof (rule while_loop_rule [OF loop, where I = ?I and Q = ?Q])
    show "?I ?ag0 w ?L0" using bound by simp
  next
    fix a v M fl' a' v' M'
    assume I: "?I a v M" and lt: "priv_iteration a < max_iterations (config a)"
      and body: "loop_body a v ?inp M = (fl', a', v', M')"
    from I have same: "same_setup ag a" by simp
    then have cfg: "config a = config ag" "llm a = llm ag" "memory a = memory ag"
      by (simp_all add: same_setup_def)
    from model obtain act where
      gen: "generate (llm a) (length (llm_calls v)) (construct_prompt a ?inp (context_var M))
              (max_tokens (config a)) (stop_sequences (config a)) = Inr act"
      and plain: "no_decision act"
      unfolding cfg by blast
    have m: "mirror_ok a" using mirror by (simp add: mirror_ok_def cfg)
    from I have fa: "final_answer M = None" by simp
    from loop_body_no_decision [OF gen plain m fa] body
    have res: "fl' = Continue" "M' = M\<lparr>action_var := Some act\<rparr>"
      and calls: "llm_calls v' = llm_calls v @ [(construct_prompt a ?inp (context_var M), Inr act)]"
        "tool_calls v' = tool_calls v"
      by auto
    from loop_body_frame [OF body]
    have fr: "same_setup a a'" "priv_iteration a' = priv_iteration a + 1" by simp_all
    have "?I a' v' M'"
      using I lt fr res calls bound same
      by (auto simp: cfg intro: same_setup_trans prefix_order.trans)
    with res show "if fl' = Continue then ?I a' v' M' else ?Q fl' a' v' M'" by simp
  next
    fix a :: Agent and v :: World and M :: Locals
    assume I: "?I a v M" and ge: "\<not> priv_iteration a < max_iterations (config a)"
    from I have "config a = config ag" by (simp add: same_setup_def)
    with I ge bound show "?Q Continue a v M" by simp
  qed
  then have fl: "fl = Continue" and it: "priv_iteration ag1 = N"
    and fa: "final_answer L1 = None"
    and calls: "prefix (llm_calls w) (llm_calls w1)"
      "length (llm_calls w1) = length (llm_calls w) + nat N" "tool_calls w1 = tool_calls w"
    and last: "0 < N \<longrightarrow> (\<exists>act. action_var L1 = Some act \<and> llm_calls w1 \<noteq> [] \<and>
                        snd (last (llm_calls w1)) = Inr act)"
    by auto
  from last bound obtain act where act: "action_var L1 = Some act"
    "snd (last (llm_calls w1)) = Inr act" by auto
  have "execute ag w input_data ctx = (Inr act, ag1\<lparr>state := COMPLETED\<rparr>, w1)"
    using loop fl fa act
    by (simp add: execute_def execute_try_def Let_def after_loop_def finish_def)
  then show ?thesis
    using act calls
    by (simp add: outcome_def world_after_def agent_after_def llm_calls_made_def
          tool_calls_made_def)
qed

theorem execute_falls_back_to_last_action_witness:
  "outcome musing_run =
     Inr \<lparr> out_type = OutputType_TEXT, out_content = PStr ''Let me think'',
            out_metadata = [(''call'', PInt 1)] \<rparr> \<and>
   length (llm_calls (world_after musing_run)) = 2 \<and>
   state (agent_after musing_run) = COMPLETED"
  using execute_falls_back_to_last_action
    [of "Agent_init musing_llm (default_config\<lparr>max_iterations := 2\<rparr>)
           (Some [(''echo'', echo_tool)]) None ''session-3''"
        2 empty_world "InStr ''question''" None]
  by (simp add: musing_run_def musing_llm_def no_decision_def mirror_ok_def llm_calls_made_def
        example_defs execute_defs)

text \<open>
  C1 as stated fails: bound 2, a model that never decides, tracing enabled and a Redis
  memory that cannot be reached. The trace of the first model call cannot be stored, and
  \<^verbatim>\<open>execute\<close> raises that RuntimeError after one model call, with state \<^verbatim>\<open>ERROR\<close>,
  instead of returning the last action.
\<close>

definition musing_mirror_run :: "(exn + BaseOutput) \<times> Agent \<times> World" where
  "musing_mirror_run =
     execute (Agent_init musing_llm (default_config\<lparr>max_iterations := 2\<rparr>)
                (Some [(''echo'', echo_tool)]) (Some unreachable_redis) ''session-3'')
       empty_world (InStr ''question'') None"

theorem fallback_mirror_counterexample:
  "map snd (llm_calls (world_after musing_mirror_run)) =
     [Inr \<lparr> out_type = OutputType_TEXT, out_content = PStr ''Let me think'',
             out_metadata = [(''call'', PInt 0)] \<rparr>] \<and>
   outcome musing_mirror_run = Inl (RuntimeError ''Redis storage error: Connection refused'') \<and>
   state (agent_after musing_mirror_run) = ERROR"
  by (simp add: musing_mirror_run_def musing_llm_def example_defs execute_defs)

section \<open>A tool that is not registered\<close>

text \<open>
  The reply asks for the tool \<open>n\<close> and the registry has no such name: the reply is of kind
  \<^verbatim>\<open>JSON\<close>, its content is a dict without \<^verbatim>\<open>final_answer\<close> (which would win over
  \<^verbatim>\<open>tool\<close>) whose \<^verbatim>\<open>tool\<close> is the string \<open>n\<close>.
\<close>

definition requests_missing_tool :: "Agent \<Rightarrow> BaseOutput \<Rightarrow> string \<Rightarrow> bool" where
  "requests_missing_tool ag act n \<longleftrightarrow>
     out_type act = OutputType_JSON \<and>
     (\<exists>d. out_content act = PDict d \<and> map_of d ''final_answer'' = None \<and>
          map_of d ''tool'' = Some (PStr n)) \<and>
     map_of (tools ag) n = None"

text \<open>A run whose second reply asks for a tool nobody registered.\<close>

definition calculator_run :: "(exn + BaseOutput) \<times> Agent \<times> World" where
  "calculator_run =
     execute (echo_agent [Inr (tool_request ''echo'' (PStr ''a'')),
                          Inr (tool_request ''calculator'' (PStr ''1+1''))] 5 None)
       empty_world (InStr ''question'') None"

lemma tool_step_llm_calls:
  "tool_step ag w i L rd = (fl, ag', w', L') \<Longrightarrow> llm_calls w' = llm_calls w"
  unfolding tool_step_def Let_def
  by (auto split: sum.splits lookup.splits option.splits prod.splits
      dest!: trace_if_enabled_effect)

lemma parse_step_llm_calls:
  "parse_step ag w i L act = (fl, ag', w', L') \<Longrightarrow> llm_calls w' = llm_calls w"
  unfolding parse_step_def Let_def
  by (auto split: sum.splits if_splits bool.splits dest!: tool_step_llm_calls)

lemma loop_body_llm_calls:
  "loop_body ag w i L = (fl, ag', w', L') \<Longrightarrow>
     llm_calls w' = llm_calls w @
       [(construct_prompt ag i (context_var L),
         generate (llm ag) (length (llm_calls w)) (construct_prompt ag i (context_var L))
           (max_tokens (config ag)) (stop_sequences (config ag)))]"
  unfolding loop_body_def Let_def generate_next_action_def
  by (auto split: sum.splits flow.splits prod.splits option.splits
      dest!: parse_step_llm_calls trace_if_enabled_effect)

lemma loop_body_missing_tool:
  assumes gen: "generate (llm ag) (length (llm_calls w)) (construct_prompt ag i (context_var L))
                  (max_tokens (config ag)) (stop_sequences (config ag)) = Inr act"
    and req: "requests_missing_tool ag act n" and mirror: "mirror_ok ag"
  shows "\<exists>ag' w' L'. loop_body ag w i L =
           (Raise (ValueError (''Tool '' @ n @ '' not found'')), ag', w', L')"
proof -
  let ?ag1 = "ag\<lparr>priv_iteration := priv_iteration ag + 1, state := THINKING\<rparr>"
  let ?p = "construct_prompt ag i (context_var L)"
  let ?w1 = "w\<lparr>llm_calls := llm_calls w @ [(?p, Inr act)]\<rparr>"
  let ?L1 = "L\<lparr>action_var := Some act\<rparr>"
  have g: "generate_next_action ?ag1 w i (context_var L) = (Inr act, ?w1)"
    using gen by (simp add: generate_next_action_def Let_def)
  obtain r ag2 w2 where tr: "trace_if_enabled ?ag1 ?w1 ''llm_generation'' i act = (r, ag2, w2)"
    by (cases "trace_if_enabled ?ag1 ?w1 ''llm_generation'' i act") auto
  from trace_if_enabled_effect [OF tr] mirror
  have r: "r = None" and ag2: "tools ag2 = tools ag"
    by simp_all
  have parse: "parse_step ag2 w2 i ?L1 act =
      (Raise (ValueError (''Tool '' @ n @ '' not found'')), ag2\<lparr>state := EXECUTING\<rparr>, w2, ?L1)"
    using req ag2 by (auto simp: parse_step_def tool_step_def Let_def requests_missing_tool_def)
  have "loop_body ag w i L =
      (Raise (ValueError (''Tool '' @ n @ '' not found'')), ag2\<lparr>state := EXECUTING\<rparr>, w2, ?L1)"
    using g tr r parse by (simp add: loop_body_def Let_def)
  then show ?thesis by blast
qed

text \<open>
  C3, as the code has it. Let the trace mirror not fail: tracing is disabled, or no memory
  is attached, or the memory accepts every \<^verbatim>\<open>store\<close>. Whenever, during \<^verbatim>\<open>execute\<close>, a
  reply of the model asks for a tool that is not registered, \<^verbatim>\<open>execute\<close> raises the
  ValueError \<^verbatim>\<open>Tool <name> not found\<close> (the spec's ToolNotFound) and the state is
  \<^verbatim>\<open>ERROR\<close>; that model call is the last one of the run, so nothing is retried; and no
  trace labelled \<^verbatim>\<open>tool_execution:<name>\<close> is recorded.
\<close>

theorem missing_tool_is_fatal:
  assumes mirror: "mirror_ok ag"
    and run: "execute ag w input_data ctx = (r, ag', w')"
    and asked: "(p, Inr act) \<in> set (llm_calls_made w w')"
    and req: "requests_missing_tool ag act n"
  shows "r = Inl (ValueError (''Tool '' @ n @ '' not found'')) \<and>
         state ag' = ERROR \<and>
         last (llm_calls w') = (p, Inr act) \<and>
         (\<forall>t \<in> set (traces_added ag ag'). action t \<noteq> ''tool_execution:'' @ n)"
proof -
  let ?inp = "as_envelope input_data"
  let ?ag0 = "ag\<lparr>state := THINKING, priv_iteration := 0\<rparr>"
  let ?L0 = "\<lparr> context_var = context_or_empty ctx, final_answer = None, action_var = None \<rparr>"
  let ?err = "ValueError (''Tool '' @ n @ '' not found'')"
  let ?I = "\<lambda>(a::Agent) (v::World) (M::Locals). same_setup ag a \<and>
              prefix (llm_calls w) (llm_calls v) \<and> (p, Inr act) \<notin> set (llm_calls_made w v)"
  let ?Q = "\<lambda>fl (a::Agent) (v::World) (M::Locals). prefix (llm_calls w) (llm_calls v) \<and>
              ((p, Inr act) \<in> set (llm_calls_made w v) \<longrightarrow>
                 fl = Raise ?err \<and> last (llm_calls v) = (p, Inr act))"
  obtain fl ag1 w1 L1 where loop: "while_loop ?ag0 w ?inp ?L0 = (fl, ag1, w1, L1)"
    by (cases "while_loop ?ag0 w ?inp ?L0") auto
  have w1: "w1 = w'"
    using run loop
    by (auto simp: execute_def execute_try_def Let_def after_loop_def finish_def
          split: flow.splits option.splits sum.splits prod.splits)
  have "?Q fl ag1 w1 L1"
  proof (rule while_loop_rule [OF loop, where I = ?I and Q = ?Q])
    show "?I ?ag0 w ?L0" by (simp add: llm_calls_made_def)
  next
    fix a v M fl' a' v' M'
    assume I: "?I a v M" and lt: "priv_iteration a < max_iterations (config a)"
      and body: "loop_body a v ?inp M = (fl', a', v', M')"
    define e where "e = (construct_prompt a ?inp (context_var M),
               generate (llm a) (length (llm_calls v)) (construct_prompt a ?inp (context_var M))
                 (max_tokens (config a)) (stop_sequences (config a)))"
    from I have same: "same_setup ag a" and pre: "prefix (llm_calls w) (llm_calls v)"
      and notyet: "(p, Inr act) \<notin> set (llm_calls_made w v)" by simp_all
    from loop_body_llm_calls [OF body] have calls: "llm_calls v' = llm_calls v @ [e]"
      by (simp add: e_def)
    from pre obtain xs where xs: "llm_calls v = llm_calls w @ xs" by (auto simp: prefix_def)
    have made: "llm_calls_made w v' = llm_calls_made w v @ [e]"
      by (simp add: llm_calls_made_def calls xs)
    have pre': "prefix (llm_calls w) (llm_calls v')" by (simp add: calls xs)
    from loop_body_frame [OF body] same have same': "same_setup ag a'"
      by (auto intro: same_setup_trans)
    show "if fl' = Continue then ?I a' v' M' else ?Q fl' a' v' M'"
    proof (cases "e = (p, Inr act)")
      case True
      then have gen: "generate (llm a) (length (llm_calls v))
            (construct_prompt a ?inp (context_var M))
            (max_tokens (config a)) (stop_sequences (config a)) = Inr act"
        by (auto simp: e_def)
      have "requests_missing_tool a act n" "mirror_ok a"
        using req mirror same by (simp_all add: requests_missing_tool_def mirror_ok_def same_setup_def)
      from loop_body_missing_tool [OF gen this] body have "fl' = Raise ?err" by auto
      with True calls pre' show ?thesis by simp
    next
      case False
      with notyet made have "(p, Inr act) \<notin> set (llm_calls_made w v')" by simp
      with pre' same' show ?thesis by simp
    qed
  next
    fix a :: Agent and v :: World and M :: Locals
    assume "?I a v M"
    then show "?Q Continue a v M" by simp
  qed
  with asked have fl: "fl = Raise ?err" and last: "last (llm_calls w') = (p, Inr act)"
    by (simp_all add: w1)
  from fl run loop have "r = Inl ?err" "state ag' = ERROR"
    by (auto simp: execute_def execute_try_def Let_def)
  moreover have "\<forall>t \<in> set (traces_added ag ag'). action t \<noteq> ''tool_execution:'' @ n"
  proof
    fix t assume "t \<in> set (traces_added ag ag')"
    with execute_session [OF run] have "trace_of_agent ag t"
      by (auto simp: session_kept_def appended_def traces_added_def list_all_iff)
    with req show "action t \<noteq> ''tool_execution:'' @ n"
      by (auto simp: trace_of_agent_def requests_missing_tool_def)
  qed
  ultimately show ?thesis using last by simp
qed

theorem missing_tool_is_fatal_witness:
  "outcome calculator_run = Inl (ValueError ''Tool calculator not found'') \<and>
   state (agent_after calculator_run) = ERROR \<and>
   length (llm_calls (world_after calculator_run)) = 2 \<and>
   map action (priv_traces (agent_after calculator_run))
     = [''llm_generation'', ''tool_execution:echo'', ''llm_generation'']"
  using missing_tool_is_fatal
    [of "echo_agent [Inr (tool_request ''echo'' (PStr ''a'')),
                     Inr (tool_request ''calculator'' (PStr ''1+1''))] 5 None"
        empty_world "InStr ''question''" None
        "outcome calculator_run" "agent_after calculator_run" "world_after calculator_run"
        "fst (last (llm_calls (world_after calculator_run)))"
        "tool_request ''calculator'' (PStr ''1+1'')" "''calculator''"]
  by (simp add: calculator_run_def requests_missing_tool_def mirror_ok_def llm_calls_made_def
        example_defs execute_defs)

text \<open>
  C3 as stated fails: the first reply asks for the unregistered tool \<^verbatim>\<open>calculator\<close>,
  tracing is enabled and the Redis memory cannot be reached. Storing the trace of the model
  call raises before the reply is parsed, so \<^verbatim>\<open>execute\<close> fails with that RuntimeError
  and not with the ValueError \<^verbatim>\<open>Tool calculator not found\<close>.
\<close>

definition calculator_mirror_run :: "(exn + BaseOutput) \<times> Agent \<times> World" where
  "calculator_mirror_run =
     execute (echo_agent [Inr (tool_request ''calculator'' (PStr ''1+1''))] 5
                (Some unreachable_redis))
       empty_world (InStr ''question'') None"

theorem missing_tool_mirror_counterexample:
  "map snd (llm_calls (world_after calculator_mirror_run)) =
     [Inr (tool_request ''calculator'' (PStr ''1+1''))] \<and>
   requests_missing_tool (echo_agent [Inr (tool_request ''calculator'' (PStr ''1+1''))] 5
                            (Some unreachable_redis))
     (tool_request ''calculator'' (PStr ''1+1'')) ''calculator'' \<and>
   outcome calculator_mirror_run
     = Inl (RuntimeError ''Redis storage error: Connection refused'') \<and>
   outcome calculator_mirror_run \<noteq> Inl (ValueError ''Tool calculator not found'') \<and>
   state (agent_after calculator_mirror_run) = ERROR"
  by (simp add: calculator_mirror_run_def requests_missing_tool_def example_defs execute_defs)

section \<open>Counting traces\<close>

text \<open>
  The model calls and the tool calls that returned an envelope, and the traces with the
  label of a model call and with the label of a tool call.
\<close>

definition model_answers :: "(Prompt \<times> (exn + BaseOutput)) list \<Rightarrow> nat" where
  "model_answers calls = length (filter (\<lambda>(p, r). \<not> isl r) calls)"

definition tool_answers :: "(string \<times> BaseInput \<times> (exn + BaseOutput)) list \<Rightarrow> nat" where
  "tool_answers calls = length (filter (\<lambda>(n, a, r). \<not> isl r) calls)"

definition llm_traces :: "BaseTrace list \<Rightarrow> nat" where
  "llm_traces ts = length (filter (\<lambda>t. action t = ''llm_generation'') ts)"

definition tool_traces :: "BaseTrace list \<Rightarrow> nat" where
  "tool_traces ts = length (filter (\<lambda>t. prefix ''tool_execution:'' (action t)) ts)"

definition counted :: "Agent \<Rightarrow> World \<Rightarrow> Agent \<Rightarrow> World \<Rightarrow> bool" where
  "counted ag w ag' w' \<longleftrightarrow>
     same_setup ag ag' \<and> grows ag w ag' w' \<and>
     (trace_enabled (config ag) \<longrightarrow>
        llm_traces (traces_added ag ag') = model_answers (llm_calls_made w w') \<and>
        tool_traces (traces_added ag ag') = tool_answers (tool_calls_made w w') \<and>
        length (traces_added ag ag') =
          model_answers (llm_calls_made w w') + tool_answers (tool_calls_made w w'))"

text \<open>
  A run of three passes: two requests for the tool \<^verbatim>\<open>echo\<close> (the second with an
  integer as input), then the final answer.
\<close>

definition three_pass_run :: "(exn + BaseOutput) \<times> Agent \<times> World" where
  "three_pass_run =
     execute (echo_agent [Inr (tool_request ''echo'' (PStr ''a'')),
                          Inr (tool_request ''echo'' (PInt 5)),
                          Inr ok_answer] 3 None)
       empty_world (InStr ''question'') None"

lemma counted_refl [simp]: "counted ag w ag w"
  by (simp add: counted_def traces_added_def llm_calls_made_def tool_calls_made_def
        llm_traces_def tool_traces_def model_answers_def tool_answers_def)

lemma counted_trans:
  assumes "counted a u b v" and "counted b v c w"
  shows "counted a u c w"
proof -
  from assms have s: "same_setup a b" "same_setup b c" and g: "grows a u b v" "grows b v c w"
    by (simp_all add: counted_def)
  from g obtain t1 t2 l1 l2 c1 c2 where
    "priv_traces b = priv_traces a @ t1" "priv_traces c = priv_traces b @ t2"
    "llm_calls v = llm_calls u @ l1" "llm_calls w = llm_calls v @ l2"
    "tool_calls v = tool_calls u @ c1" "tool_calls w = tool_calls v @ c2"
    unfolding grows_def prefix_def by blast
  moreover from s have "config b = config a" by (simp add: same_setup_def)
  ultimately show ?thesis
    using assms s g
    unfolding counted_def traces_added_def llm_calls_made_def tool_calls_made_def
      llm_traces_def tool_traces_def model_answers_def tool_answers_def
    by (auto intro: same_setup_trans grows_trans)
qed

lemma counted_upd [simp]:
  "counted ag w (ag'\<lparr>state := s\<rparr>) w' = counted ag w ag' w'"
  "counted (ag\<lparr>state := s\<rparr>) w ag' w' = counted ag w ag' w'"
  "counted (ag\<lparr>priv_iteration := k\<rparr>) w ag' w' = counted ag w ag' w'"
  by (simp_all add: counted_def traces_added_def)

lemma tool_step_counted:
  "tool_step ag w i L rd = (fl, ag', w', L') \<Longrightarrow> counted ag w ag' w'"
  unfolding tool_step_def Let_def trace_if_enabled_def store_trace_def
  by (auto split: sum.splits lookup.splits option.splits prod.splits if_splits
      simp: counted_def same_setup_def grows_def traces_added_def llm_calls_made_def
        tool_calls_made_def llm_traces_def tool_traces_def model_answers_def
        tool_answers_def make_trace_def)

lemma parse_step_counted:
  "parse_step ag w i L act = (fl, ag', w', L') \<Longrightarrow> counted ag w ag' w'"
  unfolding parse_step_def Let_def
  by (auto split: sum.splits if_splits bool.splits dest!: tool_step_counted)

lemma loop_body_counted:
  assumes body: "loop_body ag w i L = (fl, ag', w', L')"
  shows "counted ag w ag' w'"
proof -
  let ?ag1 = "ag\<lparr>priv_iteration := priv_iteration ag + 1, state := THINKING\<rparr>"
  let ?p = "construct_prompt ag i (context_var L)"
  let ?r = "generate (llm ag) (length (llm_calls w)) ?p
              (max_tokens (config ag)) (stop_sequences (config ag))"
  let ?w1 = "w\<lparr>llm_calls := llm_calls w @ [(?p, ?r)]\<rparr>"
  have gen: "generate_next_action ?ag1 w i (context_var L) = (?r, ?w1)"
    by (simp add: generate_next_action_def Let_def)
  show ?thesis
  proof (cases ?r)
    case (Inl e)
    with body gen have "ag' = ?ag1" "w' = ?w1"
      by (auto simp: loop_body_def Let_def)
    with Inl show ?thesis
      by (simp add: counted_def grows_def traces_added_def llm_calls_made_def
            tool_calls_made_def llm_traces_def tool_traces_def model_answers_def
            tool_answers_def)
  next
    case (Inr act)
    let ?L1 = "L\<lparr>action_var := Some act\<rparr>"
    obtain r ag2 w2 where tr: "trace_if_enabled ?ag1 ?w1 ''llm_generation'' i act = (r, ag2, w2)"
      by (cases "trace_if_enabled ?ag1 ?w1 ''llm_generation'' i act") auto
    have first: "counted ag w ag2 w2"
      using tr Inr unfolding trace_if_enabled_def store_trace_def Let_def
      by (auto split: option.splits if_splits
          simp: counted_def same_setup_def grows_def traces_added_def llm_calls_made_def
            tool_calls_made_def llm_traces_def tool_traces_def model_answers_def
            tool_answers_def make_trace_def)
    show ?thesis
    proof (cases r)
      case (Some e)
      with body gen Inr tr have "ag' = ag2" "w' = w2"
        by (auto simp: loop_body_def Let_def)
      with first show ?thesis by simp
    next
      case None
      obtain fl3 ag3 w3 L3 where parse: "parse_step ag2 w2 i ?L1 act = (fl3, ag3, w3, L3)"
        by (cases "parse_step ag2 w2 i ?L1 act") auto
      from parse_step_counted [OF parse] first have "counted ag w ag3 w3"
        by (rule counted_trans [rotated])
      moreover from body gen Inr tr None parse
      have "w' = w3 \<and> (ag' = ag3 \<or> ag' = ag3\<lparr>state := COMPLETED\<rparr>)"
        by (auto simp: loop_body_def Let_def split: flow.splits option.splits)
      ultimately show ?thesis by auto
    qed
  qed
qed

lemma while_loop_counted:
  assumes "while_loop ag w i L = (fl, ag', w', L')"
  shows "counted ag w ag' w'"
  by (rule while_loop_rule [OF assms, where I = "\<lambda>a v M. counted ag w a v"
        and Q = "\<lambda>f a v M. counted ag w a v"])
     (auto dest!: loop_body_counted intro: counted_trans)

lemma execute_counted:
  assumes "execute ag w input_data ctx = (r, ag', w')"
  shows "counted ag w ag' w'"
  using assms unfolding execute_def execute_try_def Let_def after_loop_def finish_def
  by (auto split: prod.splits sum.splits flow.splits option.splits dest!: while_loop_counted)

lemma execute_returned_no_failure:
  assumes run: "execute ag w input_data ctx = (Inr out, ag', w')"
  shows "\<not> failed_in w w' e"
proof -
  let ?ag0 = "ag\<lparr>state := THINKING, priv_iteration := 0\<rparr>"
  let ?L0 = "\<lparr> context_var = context_or_empty ctx, final_answer = None, action_var = None \<rparr>"
  obtain fl ag1 w1 L1 where
    loop: "while_loop ?ag0 w (as_envelope input_data) ?L0 = (fl, ag1, w1, L1)"
    by (cases "while_loop ?ag0 w (as_envelope input_data) ?L0") auto
  from run loop have "w1 = w'" "fl \<noteq> Raise e"
    by (auto simp: execute_def execute_try_def Let_def after_loop_def finish_def
          split: flow.splits option.splits sum.splits prod.splits)
  with while_loop_surfaced [OF loop] show ?thesis
    by (auto simp: surfaced_def)
qed

text \<open>
  C9. With tracing enabled, \<^verbatim>\<open>execute\<close> records exactly one \<^verbatim>\<open>llm_generation\<close> trace
  per model call that returned and exactly one \<^verbatim>\<open>tool_execution\<close> trace per tool call
  that returned, and no other trace; a call that raises ends the run and leaves no trace.
  When \<^verbatim>\<open>execute\<close> returns, every call returned, so the traces recorded are as many as
  the model calls and the tool calls together: five for three passes with two tool calls.
\<close>

theorem one_trace_per_call:
  assumes enabled: "trace_enabled (config ag)"
    and run: "execute ag w input_data ctx = (r, ag', w')"
  shows "llm_traces (traces_added ag ag') = model_answers (llm_calls_made w w') \<and>
         tool_traces (traces_added ag ag') = tool_answers (tool_calls_made w w') \<and>
         length (traces_added ag ag') =
           model_answers (llm_calls_made w w') + tool_answers (tool_calls_made w w') \<and>
         ((\<exists>out. r = Inr out) \<longrightarrow>
            model_answers (llm_calls_made w w') = length (llm_calls_made w w') \<and>
            tool_answers (tool_calls_made w w') = length (tool_calls_made w w'))"
proof -
  have all: "model_answers (llm_calls_made w w') = length (llm_calls_made w w') \<and>
             tool_answers (tool_calls_made w w') = length (tool_calls_made w w')"
    if "r = Inr out" for out
  proof -
    from run that have nf: "\<not> failed_in w w' e" for e
      by (auto dest: execute_returned_no_failure)
    have "filter (\<lambda>(p, r). \<not> isl r) (llm_calls_made w w') = llm_calls_made w w'"
    proof (rule filter_True, clarify)
      fix p x assume "(p, x) \<in> set (llm_calls_made w w')" "isl x"
      with nf show False by (cases x) (auto simp: failed_in_def)
    qed
    moreover have "filter (\<lambda>(n, a, r). \<not> isl r) (tool_calls_made w w') = tool_calls_made w w'"
    proof (rule filter_True, clarify)
      fix n a x assume "(n, a, x) \<in> set (tool_calls_made w w')" "isl x"
      with nf show False by (cases x) (auto simp: failed_in_def)
    qed
    ultimately show ?thesis by (simp add: model_answers_def tool_answers_def)
  qed
  from execute_counted [OF run] enabled all show ?thesis
    by (auto simp: counted_def)
qed

theorem one_trace_per_call_witness:
  "outcome three_pass_run = Inr \<lparr> out_type = OutputType_JSON,
       out_content = PDict [(''response'', PStr ''ok'')], out_metadata = [] \<rparr> \<and>
   length (llm_calls (world_after three_pass_run)) = 3 \<and>
   length (tool_calls (world_after three_pass_run)) = 2 \<and>
   length (priv_traces (agent_after three_pass_run)) = 5 \<and>
   map action (priv_traces (agent_after three_pass_run)) =
     [''llm_generation'', ''tool_execution:echo'', ''llm_generation'',
      ''tool_execution:echo'', ''llm_generation'']"
  using one_trace_per_call
    [of "echo_agent [Inr (tool_request ''echo'' (PStr ''a'')),
                     Inr (tool_request ''echo'' (PInt 5)), Inr ok_answer] 3 None"
        empty_world "InStr ''question''" None
        "outcome three_pass_run" "agent_after three_pass_run" "world_after three_pass_run"]
  by (simp add: three_pass_run_def example_defs execute_defs)

section \<open>Tool dispatch\<close>

text \<open>
  The agent with the \<^verbatim>\<open>validate_input\<close> method of every registered tool replaced: the
  tool registered as \<open>k\<close> gets \<open>f k\<close>.
\<close>

definition with_validators ::
  "(string \<Rightarrow> nat \<Rightarrow> BaseInput \<Rightarrow> exn + bool) \<Rightarrow> Agent \<Rightarrow> Agent" where
  "with_validators f ag =
     ag\<lparr>tools := map (\<lambda>(k, t). (k, t\<lparr>validate_input := f k\<rparr>)) (tools ag)\<rparr>"

text \<open>
  The dispatch a model call asks for, read off the reply alone: a reply of kind \<^verbatim>\<open>JSON\<close>
  whose content is a dict without \<^verbatim>\<open>final_answer\<close> and whose \<^verbatim>\<open>tool\<close> is a registered
  name asks for that tool, with an envelope of kind \<^verbatim>\<open>TEXT\<close> around the value under
  \<^verbatim>\<open>input\<close>, whatever its type, or around the empty string when there is none. Any other
  reply, and a model call that raised, asks for nothing. \<open>call_args\<close> is what the tool
  calls of a log were given.
\<close>

fun dispatch_of ::
  "(string \<times> BaseTool) list \<Rightarrow> Prompt \<times> (exn + BaseOutput) \<Rightarrow> (string \<times> BaseInput) list" where
  "dispatch_of ts (p, Inl e) = []"
| "dispatch_of ts (p, Inr act) =
     (if out_type act \<noteq> OutputType_JSON then []
      else case out_content act of
        PDict d \<Rightarrow>
          (if map_of d ''final_answer'' \<noteq> None then []
           else case map_of d ''tool'' of
             Some (PStr n) \<Rightarrow>
               (if map_of ts n = None then []
                else [(n, \<lparr> in_type = InputType_TEXT,
                            in_content = (case map_of d ''input'' of
                                            None \<Rightarrow> PStr [] | Some x \<Rightarrow> x),
                            in_metadata = [] \<rparr>)])
           | _ \<Rightarrow> [])
      | _ \<Rightarrow> [])"

definition dispatches ::
  "(string \<times> BaseTool) list \<Rightarrow> (Prompt \<times> (exn + BaseOutput)) list \<Rightarrow> (string \<times> BaseInput) list" where
  "dispatches ts calls = concat (map (dispatch_of ts) calls)"

definition call_args ::
  "(string \<times> BaseInput \<times> (exn + BaseOutput)) list \<Rightarrow> (string \<times> BaseInput) list" where
  "call_args calls = map (\<lambda>(n, a, r). (n, a)) calls"

text \<open>
  A tool call of the log is the call of a registered tool's \<^verbatim>\<open>execute\<close>: made as the
  \<open>k\<close>-th tool call under the name \<open>n\<close> with the envelope \<open>a\<close>, it came back with what
  \<^verbatim>\<open>execute\<close> of the tool registered as \<open>n\<close> yields for \<open>a\<close> at that call.
  \<open>tools_executed ts k calls\<close> says so of the calls \<open>calls\<close>, the first of which is the
  \<open>k\<close>-th.
\<close>

definition executed_by ::
  "(string \<times> BaseTool) list \<Rightarrow> nat \<Rightarrow> string \<times> BaseInput \<times> (exn + BaseOutput) \<Rightarrow> bool" where
  "executed_by ts k c =
     (case c of (n, a, r) \<Rightarrow>
        (case map_of ts n of None \<Rightarrow> False | Some t \<Rightarrow> r = tool_execute t k a))"

fun tools_executed ::
  "(string \<times> BaseTool) list \<Rightarrow> nat \<Rightarrow> (string \<times> BaseInput \<times> (exn + BaseOutput)) list \<Rightarrow> bool"
  where
  "tools_executed ts k [] = True"
| "tools_executed ts k (c # cs) = (executed_by ts k c \<and> tools_executed ts (Suc k) cs)"

text \<open>
  A run of three passes: a request for \<^verbatim>\<open>echo\<close> with no input, one with a list as input,
  then the final answer.
\<close>

definition dispatch_run :: "(exn + BaseOutput) \<times> Agent \<times> World" where
  "dispatch_run =
     execute (echo_agent [Inr (json_reply [(''tool'', PStr ''echo'')]),
                          Inr (tool_request ''echo'' (PList [PInt 1, PBool True])),
                          Inr ok_answer] 3 None)
       empty_world (InStr ''question'') None"

lemma with_validators_upd [simp]:
  "(with_validators f ag)\<lparr>state := s\<rparr> = with_validators f (ag\<lparr>state := s\<rparr>)"
  "(with_validators f ag)\<lparr>priv_iteration := k\<rparr> = with_validators f (ag\<lparr>priv_iteration := k\<rparr>)"
  "(with_validators f ag)\<lparr>priv_traces := ts\<rparr> = with_validators f (ag\<lparr>priv_traces := ts\<rparr>)"
  by (simp_all add: with_validators_def)

lemma with_validators_sel [simp]:
  "llm (with_validators f ag) = llm ag"
  "config (with_validators f ag) = config ag"
  "memory (with_validators f ag) = memory ag"
  "state (with_validators f ag) = state ag"
  "priv_session_id (with_validators f ag) = priv_session_id ag"
  "priv_iteration (with_validators f ag) = priv_iteration ag"
  "priv_traces (with_validators f ag) = priv_traces ag"
  by (simp_all add: with_validators_def)

lemma map_of_validators:
  "map_of (map (\<lambda>(k, t). (k, t\<lparr>validate_input := f k\<rparr>)) ts) s
     = map_option (\<lambda>t. t\<lparr>validate_input := f s\<rparr>) (map_of ts s)"
  by (induction ts) auto

lemma tools_lookup_validators:
  "tools_lookup v (tools (with_validators f ag)) =
     (case tools_lookup v (tools ag) of
        Found s t \<Rightarrow> Found s (t\<lparr>validate_input := f s\<rparr>)
      | other \<Rightarrow> other)"
  by (cases v) (auto simp: with_validators_def map_of_validators split: option.splits)

lemma construct_prompt_validators [simp]:
  "construct_prompt (with_validators f ag) = construct_prompt ag"
  by (simp add: construct_prompt_def with_validators_def fun_eq_iff comp_def case_prod_unfold)

lemma make_trace_validators [simp]:
  "make_trace (with_validators f ag) = make_trace ag"
  by (simp add: make_trace_def fun_eq_iff)

lemma trace_if_enabled_validators:
  "trace_if_enabled (with_validators f ag) w a i out =
     (case trace_if_enabled ag w a i out of (r, ag', w') \<Rightarrow> (r, with_validators f ag', w'))"
  by (simp add: trace_if_enabled_def store_trace_def Let_def split: option.splits)

lemma tool_step_validators:
  "tool_step (with_validators f ag) w i L rd =
     (case tool_step ag w i L rd of (fl, ag', w', L') \<Rightarrow> (fl, with_validators f ag', w', L'))"
  unfolding tool_step_def Let_def
  by (simp add: tools_lookup_validators trace_if_enabled_validators
      split: sum.splits lookup.splits prod.splits option.splits)

lemma parse_step_validators:
  "parse_step (with_validators f ag) w i L act =
     (case parse_step ag w i L act of (fl, ag', w', L') \<Rightarrow> (fl, with_validators f ag', w', L'))"
  unfolding parse_step_def Let_def
  by (simp add: tool_step_validators split: sum.splits bool.splits)

lemma loop_body_validators:
  "loop_body (with_validators f ag) w i L =
     (case loop_body ag w i L of (fl, ag', w', L') \<Rightarrow> (fl, with_validators f ag', w', L'))"
  unfolding loop_body_def Let_def generate_next_action_def
  by (simp add: trace_if_enabled_validators parse_step_validators
      split: sum.splits prod.splits option.splits flow.splits)

lemma while_loop_validators:
  "while_loop (with_validators f ag) w i L =
     (case while_loop ag w i L of (fl, ag', w', L') \<Rightarrow> (fl, with_validators f ag', w', L'))"
proof (induction ag w i L rule: while_loop.induct)
  case (1 ag w input_data L)
  show ?case
  proof (cases "priv_iteration ag < max_iterations (config ag)")
    case False
    then show ?thesis
      by (simp add: while_loop.simps [of ag] while_loop.simps [of "with_validators f ag"])
  next
    case True
    obtain fl1 ag1 w1 L1 where body: "loop_body ag w input_data L = (fl1, ag1, w1, L1)"
      by (cases "loop_body ag w input_data L") auto
    show ?thesis
    proof (cases "fl1 = Continue")
      case False
      with True body show ?thesis
        by (simp add: while_loop.simps [of ag] while_loop.simps [of "with_validators f ag"]
              loop_body_validators split: flow.splits)
    next
      case c: True
      from "1.IH" [OF True body [symmetric] c refl refl] True body c show ?thesis
        by (simp add: while_loop.simps [of ag] while_loop.simps [of "with_validators f ag"]
              loop_body_validators)
    qed
  qed
qed

lemma execute_validators:
  "execute (with_validators f ag) w input_data ctx =
     (case execute ag w input_data ctx of (r, ag', w') \<Rightarrow> (r, with_validators f ag', w'))"
  unfolding execute_def execute_try_def Let_def after_loop_def finish_def
  by (simp add: while_loop_validators
      split: prod.splits flow.splits option.splits sum.splits)

lemma tools_executed_append:
  "tools_executed ts k (xs @ ys) \<longleftrightarrow>
     tools_executed ts k xs \<and> tools_executed ts (k + length xs) ys"
  by (induction xs arbitrary: k) auto

lemma trace_if_enabled_tool_calls:
  "trace_if_enabled ag w a i out = (r, ag', w') \<Longrightarrow> tool_calls w' = tool_calls w"
  by (auto dest: trace_if_enabled_effect)

lemma tool_step_dispatch:
  assumes step: "tool_step ag w i L (PDict d) = (fl, ag', w', L')"
    and nofinal: "map_of d ''final_answer'' = None"
    and json: "out_type act = OutputType_JSON" "out_content act = PDict d"
  shows "(\<exists>xs. tool_calls w' = tool_calls w @ xs \<and>
               tools_executed (tools ag) (length (tool_calls w)) xs \<and>
               prefix (call_args xs) (dispatch_of (tools ag) (p, Inr act)) \<and>
               ((\<forall>e. fl \<noteq> Raise e) \<longrightarrow> call_args xs = dispatch_of (tools ag) (p, Inr act)))"
proof (cases "map_of d ''tool''")
  case None
  with step show ?thesis by (auto simp: tool_step_def call_args_def)
next
  case (Some v)
  show ?thesis
  proof (cases "tools_lookup v (tools ag)")
    case (Unhashable ty)
    with step Some show ?thesis by (auto simp: tool_step_def call_args_def)
  next
    case (NotFound s)
    with step Some show ?thesis
      by (cases v) (auto simp: tool_step_def call_args_def json nofinal split: option.splits)
  next
    case (Found s t)
    then have v: "v = PStr s" "map_of (tools ag) s = Some t"
      by (auto dest: tools_lookup_Found)
    let ?arg = "\<lparr> in_type = InputType_TEXT,
                  in_content = (case map_of d ''input'' of None \<Rightarrow> PStr [] | Some x \<Rightarrow> x),
                  in_metadata = [] \<rparr>"
    have disp: "dispatch_of (tools ag) (p, Inr act) = [(s, ?arg)]"
      using json nofinal Some v by simp
    let ?r = "tool_execute t (length (tool_calls w)) ?arg"
    let ?w1 = "w\<lparr>tool_calls := tool_calls w @ [(s, ?arg, ?r)]\<rparr>"
    have "tool_calls w' = tool_calls w @ [(s, ?arg, ?r)]"
    proof (cases ?r)
      case (Inl e)
      with step Some Found show ?thesis by (auto simp: tool_step_def Let_def)
    next
      case (Inr res)
      obtain r ag2 w2 where tr: "trace_if_enabled (ag\<lparr>state := EXECUTING\<rparr>) ?w1
                                   (''tool_execution:'' @ s) i res = (r, ag2, w2)"
        by (cases "trace_if_enabled (ag\<lparr>state := EXECUTING\<rparr>) ?w1
                     (''tool_execution:'' @ s) i res") auto
      from trace_if_enabled_tool_calls [OF tr] have "tool_calls w2 = tool_calls ?w1" .
      moreover from step Some Found Inr tr have "w' = w2"
        by (cases r) (auto simp: tool_step_def Let_def)
      ultimately show ?thesis by simp
    qed
    with disp v show ?thesis by (simp add: call_args_def executed_by_def)
  qed
qed

lemma tool_step_not_dict:
  assumes "tool_step ag w i L rd = (fl, ag', w', L')" and "\<forall>d. rd \<noteq> PDict d"
  shows "tool_calls w' = tool_calls w \<and> (\<exists>e. fl = Raise e)"
  using assms by (cases rd) (auto simp: tool_step_def)

lemma parse_step_dispatch:
  assumes step: "parse_step ag w i L act = (fl, ag', w', L')"
  shows "\<exists>xs. tool_calls w' = tool_calls w @ xs \<and>
               tools_executed (tools ag) (length (tool_calls w)) xs \<and>
               prefix (call_args xs) (dispatch_of (tools ag) (p, Inr act)) \<and>
               ((\<forall>e. fl \<noteq> Raise e) \<longrightarrow> call_args xs = dispatch_of (tools ag) (p, Inr act))"
proof (cases "out_type act = OutputType_JSON")
  case False
  with step show ?thesis by (auto simp: parse_step_def call_args_def)
next
  case json: True
  show ?thesis
  proof (cases "\<exists>d. out_content act = PDict d")
    case False
    then have nd: "\<forall>d. out_content act \<noteq> PDict d" by simp
    then have disp: "dispatch_of (tools ag) (p, Inr act) = []"
      by (cases "out_content act") (simp_all add: json)
    have "tool_calls w' = tool_calls w"
      using step json nd
      by (auto simp: parse_step_def Let_def split: sum.splits bool.splits if_splits
          dest: tool_step_not_dict)
    with disp show ?thesis by (simp add: call_args_def)
  next
    case True
    then obtain d where d: "out_content act = PDict d" by blast
    show ?thesis
    proof (cases "map_of d ''final_answer''")
      case (Some v)
      with step json d show ?thesis by (auto simp: parse_step_def call_args_def)
    next
      case nofinal: None
      show ?thesis
      proof (cases "map_of d ''tool''")
        case None
        with step json d nofinal show ?thesis by (auto simp: parse_step_def call_args_def)
      next
        case (Some v)
        with step json d nofinal have "tool_step ag w i L (PDict d) = (fl, ag', w', L')"
          by (simp add: parse_step_def)
        from tool_step_dispatch [OF this nofinal json d] show ?thesis .
      qed
    qed
  qed
qed

lemma loop_body_dispatch:
  assumes body: "loop_body ag w i L = (fl, ag', w', L')"
  shows "\<exists>c xs. llm_calls w' = llm_calls w @ [c] \<and> tool_calls w' = tool_calls w @ xs \<and>
               tools_executed (tools ag) (length (tool_calls w)) xs \<and>
               prefix (call_args xs) (dispatch_of (tools ag) c) \<and>
               ((\<forall>e. fl \<noteq> Raise e) \<longrightarrow> call_args xs = dispatch_of (tools ag) c)"
proof -
  let ?ag1 = "ag\<lparr>priv_iteration := priv_iteration ag + 1, state := THINKING\<rparr>"
  let ?p = "construct_prompt ag i (context_var L)"
  let ?r = "generate (llm ag) (length (llm_calls w)) ?p
              (max_tokens (config ag)) (stop_sequences (config ag))"
  let ?w1 = "w\<lparr>llm_calls := llm_calls w @ [(?p, ?r)]\<rparr>"
  have gen: "generate_next_action ?ag1 w i (context_var L) = (?r, ?w1)"
    by (simp add: generate_next_action_def Let_def)
  from loop_body_llm_calls [OF body] have llm: "llm_calls w' = llm_calls w @ [(?p, ?r)]" .
  have "\<exists>xs. tool_calls w' = tool_calls w @ xs \<and>
               tools_executed (tools ag) (length (tool_calls w)) xs \<and>
               prefix (call_args xs) (dispatch_of (tools ag) (?p, ?r)) \<and>
               ((\<forall>e. fl \<noteq> Raise e) \<longrightarrow> call_args xs = dispatch_of (tools ag) (?p, ?r))"
  proof (cases ?r)
    case (Inl e)
    with body gen have "w' = ?w1" by (auto simp: loop_body_def Let_def)
    with Inl show ?thesis by (simp add: call_args_def)
  next
    case (Inr act)
    let ?L1 = "L\<lparr>action_var := Some act\<rparr>"
    obtain r ag2 w2 where tr: "trace_if_enabled ?ag1 ?w1 ''llm_generation'' i act = (r, ag2, w2)"
      by (cases "trace_if_enabled ?ag1 ?w1 ''llm_generation'' i act") auto
    from trace_if_enabled_effect [OF tr]
    have w2: "tool_calls w2 = tool_calls w" and ag2: "tools ag2 = tools ag" by simp_all
    show ?thesis
    proof (cases r)
      case (Some e)
      with body gen Inr tr have "w' = w2" "fl = Raise e" by (auto simp: loop_body_def Let_def)
      with w2 show ?thesis by (simp add: call_args_def)
    next
      case None
      obtain fl3 ag3 w3 L3 where parse: "parse_step ag2 w2 i ?L1 act = (fl3, ag3, w3, L3)"
        by (cases "parse_step ag2 w2 i ?L1 act") auto
      from body gen Inr tr None parse
      have "w' = w3" and "(\<forall>e. fl \<noteq> Raise e) \<longrightarrow> (\<forall>e. fl3 \<noteq> Raise e)"
        by (auto simp: loop_body_def Let_def split: flow.splits option.splits)
      with parse_step_dispatch [OF parse, of ?p] w2 ag2 Inr show ?thesis by auto
    qed
  qed
  with llm show ?thesis by blast
qed

lemma dispatches_snoc [simp]:
  "dispatches ts (ls @ [c]) = dispatches ts ls @ dispatch_of ts c"
  by (simp add: dispatches_def)

lemma call_args_append [simp]: "call_args (xs @ ys) = call_args xs @ call_args ys"
  by (simp add: call_args_def)

lemma while_loop_dispatch:
  assumes loop: "while_loop ag w i L = (fl, ag', w', L')"
  shows "\<exists>ls xs. llm_calls w' = llm_calls w @ ls \<and> tool_calls w' = tool_calls w @ xs \<and>
               tools_executed (tools ag) (length (tool_calls w)) xs \<and>
               prefix (call_args xs) (dispatches (tools ag) ls) \<and>
               ((\<forall>e. fl \<noteq> Raise e) \<longrightarrow> call_args xs = dispatches (tools ag) ls)"
proof -
  let ?I = "\<lambda>(a::Agent) (v::World) (M::Locals). same_setup ag a \<and>
              (\<exists>ls xs. llm_calls v = llm_calls w @ ls \<and> tool_calls v = tool_calls w @ xs \<and>
                 tools_executed (tools ag) (length (tool_calls w)) xs \<and>
                 call_args xs = dispatches (tools ag) ls)"
  let ?Q = "\<lambda>f (a::Agent) (v::World) (M::Locals).
              \<exists>ls xs. llm_calls v = llm_calls w @ ls \<and> tool_calls v = tool_calls w @ xs \<and>
                 tools_executed (tools ag) (length (tool_calls w)) xs \<and>
                 prefix (call_args xs) (dispatches (tools ag) ls) \<and>
                 ((\<forall>e. f \<noteq> Raise e) \<longrightarrow> call_args xs = dispatches (tools ag) ls)"
  show ?thesis
  proof (rule while_loop_rule [OF loop, where I = ?I and Q = ?Q])
    show "?I ag w L" by (simp add: dispatches_def call_args_def)
  next
    fix a v M fl' a' v' M'
    assume I: "?I a v M" and "priv_iteration a < max_iterations (config a)"
      and body: "loop_body a v i M = (fl', a', v', M')"
    from I obtain ls xs where same: "same_setup ag a"
      and old: "llm_calls v = llm_calls w @ ls" "tool_calls v = tool_calls w @ xs"
        "call_args xs = dispatches (tools ag) ls"
      and oldx: "tools_executed (tools ag) (length (tool_calls w)) xs" by blast
    from same have ts: "tools a = tools ag" by (simp add: same_setup_def)
    from loop_body_dispatch [OF body] obtain c ys where
      new: "llm_calls v' = llm_calls v @ [c]" "tool_calls v' = tool_calls v @ ys"
        "prefix (call_args ys) (dispatch_of (tools ag) c)"
        "(\<forall>e. fl' \<noteq> Raise e) \<longrightarrow> call_args ys = dispatch_of (tools ag) c"
      and newx: "tools_executed (tools ag) (length (tool_calls v)) ys"
      unfolding ts by blast
    have ex: "tools_executed (tools ag) (length (tool_calls w)) (xs @ ys)"
      using oldx newx old by (simp add: tools_executed_append)
    from loop_body_frame [OF body] same have same': "same_setup ag a'"
      by (auto intro: same_setup_trans)
    have l: "llm_calls v' = llm_calls w @ (ls @ [c])" and t: "tool_calls v' = tool_calls w @ (xs @ ys)"
      using old new by simp_all
    have pre: "prefix (call_args (xs @ ys)) (dispatches (tools ag) (ls @ [c]))"
      using old new by simp
    have eq: "call_args (xs @ ys) = dispatches (tools ag) (ls @ [c])" if "\<forall>e. fl' \<noteq> Raise e"
      using old new that by simp
    show "if fl' = Continue then ?I a' v' M' else ?Q fl' a' v' M'"
    proof (cases "fl' = Continue")
      case True
      with eq have "call_args (xs @ ys) = dispatches (tools ag) (ls @ [c])" by simp
      with True same' l t ex show ?thesis
        by (simp del: dispatches_snoc call_args_append) blast?
    next
      case False
      with l t pre eq ex show ?thesis
        by (simp del: dispatches_snoc call_args_append) blast?
    qed
  next
    fix a :: Agent and v :: World and M :: Locals
    assume "?I a v M"
    then show "?Q Continue a v M" by auto
  qed
qed

text \<open>
  C10. Every tool call \<^verbatim>\<open>execute\<close> makes is a call of the \<^verbatim>\<open>execute\<close> method of the
  tool registered under the requested name: what the call came back with is what that
  method yields for the envelope passed. The tool calls are, in order, the dispatches the
  model calls asked for (all
  of them when \<^verbatim>\<open>execute\<close> returns, all but possibly the last when it raises): each call
  passes an envelope of kind \<^verbatim>\<open>TEXT\<close> around the \<^verbatim>\<open>input\<close> field of the reply, of
  whatever type, or around the empty string. And \<^verbatim>\<open>validate_input\<close> plays no part: with
  the validators of all tools replaced by any others, \<^verbatim>\<open>execute\<close> yields the same outcome,
  the same calls and the same agent.
\<close>

theorem tool_dispatch_bypasses_validation:
  "tools_executed (tools ag) (length (tool_calls w))
     (tool_calls_made w (world_after (execute ag w input_data ctx))) \<and>
   prefix (call_args (tool_calls_made w (world_after (execute ag w input_data ctx))))
          (dispatches (tools ag) (llm_calls_made w (world_after (execute ag w input_data ctx)))) \<and>
   ((\<exists>out. outcome (execute ag w input_data ctx) = Inr out) \<longrightarrow>
      call_args (tool_calls_made w (world_after (execute ag w input_data ctx)))
        = dispatches (tools ag) (llm_calls_made w (world_after (execute ag w input_data ctx)))) \<and>
   execute (with_validators f ag) w input_data ctx =
     (outcome (execute ag w input_data ctx),
      with_validators f (agent_after (execute ag w input_data ctx)),
      world_after (execute ag w input_data ctx))"
proof -
  let ?ag0 = "ag\<lparr>state := THINKING, priv_iteration := 0\<rparr>"
  let ?L0 = "\<lparr> context_var = context_or_empty ctx, final_answer = None, action_var = None \<rparr>"
  obtain r ag' w' where run: "execute ag w input_data ctx = (r, ag', w')"
    by (cases "execute ag w input_data ctx") auto
  obtain fl ag1 w1 L1 where
    loop: "while_loop ?ag0 w (as_envelope input_data) ?L0 = (fl, ag1, w1, L1)"
    by (cases "while_loop ?ag0 w (as_envelope input_data) ?L0") auto
  from run loop have w1: "w1 = w'" and ok: "(\<exists>out. r = Inr out) \<longrightarrow> (\<forall>e. fl \<noteq> Raise e)"
    by (auto simp: execute_def execute_try_def Let_def after_loop_def finish_def
          split: flow.splits option.splits sum.splits prod.splits)
  from while_loop_dispatch [OF loop] obtain ls xs where
    "llm_calls w' = llm_calls w @ ls" "tool_calls w' = tool_calls w @ xs"
    "tools_executed (tools ag) (length (tool_calls w)) xs"
    "prefix (call_args xs) (dispatches (tools ag) ls)"
    "(\<forall>e. fl \<noteq> Raise e) \<longrightarrow> call_args xs = dispatches (tools ag) ls"
    unfolding w1 by auto
  with ok have "tools_executed (tools ag) (length (tool_calls w)) (tool_calls_made w w')"
    and "prefix (call_args (tool_calls_made w w')) (dispatches (tools ag) (llm_calls_made w w'))"
    and "(\<exists>out. r = Inr out) \<longrightarrow>
           call_args (tool_calls_made w w') = dispatches (tools ag) (llm_calls_made w w')"
    by (simp_all add: tool_calls_made_def llm_calls_made_def)
  moreover have "execute (with_validators f ag) w input_data ctx = (r, with_validators f ag', w')"
    using run by (simp add: execute_validators)
  ultimately show ?thesis
    using run by (simp add: outcome_def agent_after_def world_after_def)
qed

theorem tool_dispatch_bypasses_validation_witness:
  "call_args (tool_calls (world_after dispatch_run)) =
     [(''echo'', \<lparr> in_type = InputType_TEXT, in_content = PStr [], in_metadata = [] \<rparr>),
      (''echo'', \<lparr> in_type = InputType_TEXT, in_content = PList [PInt 1, PBool True],
                   in_metadata = [] \<rparr>)] \<and>
   map (\<lambda>(n, a, r). r) (tool_calls (world_after dispatch_run)) =
     [tool_execute echo_tool 0
        \<lparr> in_type = InputType_TEXT, in_content = PStr [], in_metadata = [] \<rparr>,
      tool_execute echo_tool 1
        \<lparr> in_type = InputType_TEXT, in_content = PList [PInt 1, PBool True],
           in_metadata = [] \<rparr>] \<and>
   validate_input echo_tool 0
     \<lparr> in_type = InputType_TEXT, in_content = PList [PInt 1, PBool True], in_metadata = [] \<rparr>
     = Inr False \<and>
   outcome (execute
     (with_validators (\<lambda>n k a. Inl (ValueError ''invalid input''))
        (echo_agent [Inr (json_reply [(''tool'', PStr ''echo'')]),
                     Inr (tool_request ''echo'' (PList [PInt 1, PBool True])),
                     Inr ok_answer] 3 None))
     empty_world (InStr ''question'') None) = outcome dispatch_run"
  using tool_dispatch_bypasses_validation
    [of "echo_agent [Inr (json_reply [(''tool'', PStr ''echo'')]),
                     Inr (tool_request ''echo'' (PList [PInt 1, PBool True])),
                     Inr ok_answer] 3 None"
        empty_world "InStr ''question''" None "\<lambda>n k a. Inl (ValueError ''invalid input'')"]
  by (simp add: dispatch_run_def call_args_def example_defs execute_defs)

end
